theory Spec2Isabelle
  imports Complex_Main
begin

section \<open>Numbers and vectors\<close>

text \<open>
  The game loop of the canonical variant (the first program of \<^verbatim>\<open>src/unnamed/part_001\<close>)
  is embedded over the real numbers: every JavaScript number is a \<^typ>\<open>real\<close>, so the
  arithmetic is exact, and the one non-finite value the program stores,
  \<^verbatim>\<open>Number.POSITIVE_INFINITY\<close> in \<^verbatim>\<open>comboTimer\<close>, has a constructor of its own.
\<close>

datatype jsnum = Fin real | PosInf

fun jsnum_add :: "jsnum \<Rightarrow> real \<Rightarrow> jsnum" where
  "jsnum_add (Fin a) d = Fin (a + d)"
| "jsnum_add PosInf d = PosInf"

fun jsnum_gt :: "jsnum \<Rightarrow> real \<Rightarrow> bool" where
  "jsnum_gt (Fin a) b = (a > b)"
| "jsnum_gt PosInf b = True"

text \<open>
  \<^verbatim>\<open>THREE.Vector3\<close>. The methods mutate the receiver in the library; the program clones
  wherever it reads the old value again, so each method is the pure function of its result.
\<close>

datatype vec3 = Vec3 (vx: real) (vy: real) (vz: real)

definition vadd :: "vec3 \<Rightarrow> vec3 \<Rightarrow> vec3" where
  "vadd a b = Vec3 (vx a + vx b) (vy a + vy b) (vz a + vz b)"

definition vsub :: "vec3 \<Rightarrow> vec3 \<Rightarrow> vec3" where
  "vsub a b = Vec3 (vx a - vx b) (vy a - vy b) (vz a - vz b)"

definition multiplyScalar :: "vec3 \<Rightarrow> real \<Rightarrow> vec3" where
  "multiplyScalar a c = Vec3 (vx a * c) (vy a * c) (vz a * c)"

definition addScaledVector :: "vec3 \<Rightarrow> vec3 \<Rightarrow> real \<Rightarrow> vec3" where
  "addScaledVector a b c = Vec3 (vx a + vx b * c) (vy a + vy b * c) (vz a + vz b * c)"

definition dot :: "vec3 \<Rightarrow> vec3 \<Rightarrow> real" where
  "dot a b = vx a * vx b + vy a * vy b + vz a * vz b"

definition crossVectors :: "vec3 \<Rightarrow> vec3 \<Rightarrow> vec3" where
  "crossVectors a b =
     Vec3 (vy a * vz b - vz a * vy b) (vz a * vx b - vx a * vz b) (vx a * vy b - vy a * vx b)"

definition lengthSq :: "vec3 \<Rightarrow> real" where
  "lengthSq a = vx a * vx a + vy a * vy a + vz a * vz a"

definition vlength :: "vec3 \<Rightarrow> real" where
  "vlength a = sqrt (lengthSq a)"

definition divideScalar :: "vec3 \<Rightarrow> real \<Rightarrow> vec3" where
  "divideScalar a c = multiplyScalar a (1 / c)"

text \<open>
  \<^verbatim>\<open>normalize() { return this.divideScalar( this.length() || 1 ); }\<close>: the library divides
  by 1 when the length is 0, so the zero vector normalizes to itself.
\<close>

definition normDivisor :: "vec3 \<Rightarrow> real" where
  "normDivisor a = (if vlength a = 0 then 1 else vlength a)"

definition vnormalize :: "vec3 \<Rightarrow> vec3" where
  "vnormalize a = divideScalar a (normDivisor a)"

definition setLength :: "vec3 \<Rightarrow> real \<Rightarrow> vec3" where
  "setLength a l = multiplyScalar (vnormalize a) l"

definition distanceTo :: "vec3 \<Rightarrow> vec3 \<Rightarrow> real" where
  "distanceTo a b = sqrt (lengthSq (vsub a b))"

definition clamp :: "real \<Rightarrow> real \<Rightarrow> real \<Rightarrow> real" where
  "clamp v lo hi = max lo (min hi v)"

definition projectOnPlane :: "vec3 \<Rightarrow> vec3 \<Rightarrow> vec3" where
  "projectOnPlane v n = vsub v (multiplyScalar n (dot v n))"

section \<open>Constants\<close>

definition PLANET_RADIUS :: real where "PLANET_RADIUS = 100"
definition GRAVITY :: real where "GRAVITY = 28"
definition BASE_SPEED :: real where "BASE_SPEED = 10.5"
definition DASH_MULTIPLIER :: real where "DASH_MULTIPLIER = 1.75"
definition BASE_ACCEL_GROUND :: real where "BASE_ACCEL_GROUND = 42"
definition BASE_ACCEL_AIR :: real where "BASE_ACCEL_AIR = 16"
definition BASE_DRAG_GROUND :: real where "BASE_DRAG_GROUND = 8.5"
definition BASE_DRAG_AIR :: real where "BASE_DRAG_AIR = 1.2"
definition JUMP_IMPULSES :: "real list" where "JUMP_IMPULSES = [7.0, 8.5, 10.0]"
definition JUMP_BUFFER_TIME :: real where "JUMP_BUFFER_TIME = 0.15"
definition JUMP_COMBO_WINDOW :: real where "JUMP_COMBO_WINDOW = 0.7"
definition GROUND_RAY_LEN :: real where "GROUND_RAY_LEN = 1.95"
definition BOOMERANG_COOLDOWN :: real where "BOOMERANG_COOLDOWN = 2.0"
definition BOOMERANG_MAX_DIST :: real where "BOOMERANG_MAX_DIST = 16"
definition BOOMERANG_SPEED :: real where "BOOMERANG_SPEED = 24"
definition BOOMERANG_HIT_RADIUS :: real where "BOOMERANG_HIT_RADIUS = 1.8"

text \<open>The literals the program writes in place: escape margin, clear radius, spawn point.\<close>

definition ESCAPE_MARGIN :: real where "ESCAPE_MARGIN = 60"
definition CLEAR_RADIUS :: real where "CLEAR_RADIUS = 4.2"
definition spawnPoint :: vec3 where "spawnPoint = Vec3 0 (PLANET_RADIUS + 3.2) 0"
definition fixedDt :: real where "fixedDt = 1 / 60"

definition goalPos :: vec3 where
  "goalPos = multiplyScalar (vnormalize (Vec3 0 (PLANET_RADIUS + 1) (-36))) (PLANET_RADIUS + 1.4)"

definition enemyUp :: vec3 where
  "enemyUp = vnormalize (Vec3 0.45 0.75 (-0.48))"

definition enemyAnchor :: vec3 where
  "enemyAnchor = multiplyScalar enemyUp (PLANET_RADIUS + 1.6)"

section \<open>State\<close>

text \<open>The player's rigid body, as the program reads and writes it.\<close>

record body =
  translation :: vec3
  linvel :: vec3

text \<open>
  The physics backend is outside the program. A tick asks it three things: whether the
  ground ray hits (\<^verbatim>\<open>castRay\<close>: origin, direction, length), what \<^verbatim>\<open>world.step()\<close> makes of
  the body, and by how much an impulse changes the velocity (\<^verbatim>\<open>applyImpulse\<close> adds the
  impulse times the body's inverse mass). All three are parameters.
\<close>

record world =
  castRay :: "vec3 \<Rightarrow> vec3 \<Rightarrow> real \<Rightarrow> bool"
  step :: "body \<Rightarrow> body"
  invMass :: real

text \<open>The module-level variables of the program.\<close>

record game =
  input :: "string set"
  jumpBufferTimer :: real
  yaw :: real
  pitch :: real
  playerRb :: body
  grounded :: bool
  wasGrounded :: bool
  jumpComboIndex :: nat
  comboTimer :: jsnum
  isClear :: bool
  hitFlash :: real
  boomerangActive :: bool
  boomerangOutward :: bool
  boomerangDistance :: real
  boomerangCooldown :: real
  boomerangVisible :: bool
  boomerangPosition :: vec3

definition initialGame :: game where
  "initialGame = \<lparr> input = {}, jumpBufferTimer = 0, yaw = 0, pitch = 0.2,
     playerRb = \<lparr> translation = spawnPoint, linvel = Vec3 0 0 0 \<rparr>,
     grounded = False, wasGrounded = False, jumpComboIndex = 0, comboTimer = PosInf,
     isClear = False, hitFlash = 0,
     boomerangActive = False, boomerangOutward = True, boomerangDistance = 0,
     boomerangCooldown = 1.1, boomerangVisible = False,
     boomerangPosition = Vec3 0 0 0 \<rparr>"

section \<open>Operations\<close>

definition setLinvel :: "vec3 \<Rightarrow> body \<Rightarrow> body" where
  "setLinvel v b = b\<lparr> linvel := v \<rparr>"

definition setTranslation :: "vec3 \<Rightarrow> body \<Rightarrow> body" where
  "setTranslation p b = b\<lparr> translation := p \<rparr>"

definition applyImpulse :: "world \<Rightarrow> vec3 \<Rightarrow> body \<Rightarrow> body" where
  "applyImpulse w j b = b\<lparr> linvel := vadd (linvel b) (multiplyScalar j (invMass w)) \<rparr>"

definition resetPlayer :: "game \<Rightarrow> game" where
  "resetPlayer s = s\<lparr> isClear := False, jumpBufferTimer := 0, jumpComboIndex := 0,
     comboTimer := PosInf,
     playerRb := setLinvel (Vec3 0 0 0) (setTranslation spawnPoint (playerRb s)) \<rparr>"

text \<open>
  The \<^verbatim>\<open>keydown\<close>, \<^verbatim>\<open>keyup\<close> and \<^verbatim>\<open>mousemove\<close> listeners; \<open>locked\<close> says whether the
  pointer is locked to the canvas.
\<close>

definition mousemove :: "bool \<Rightarrow> real \<Rightarrow> real \<Rightarrow> game \<Rightarrow> game" where
  "mousemove locked movementX movementY s =
     (if \<not> locked then s
      else s\<lparr> yaw := yaw s - movementX * 0.0025,
               pitch := clamp (pitch s - movementY * 0.0025) (-1.2) 1.2 \<rparr>)"

definition keydown :: "string \<Rightarrow> game \<Rightarrow> game" where
  "keydown code s =
     (let s1 = s\<lparr> input := insert code (input s) \<rparr>;
          s2 = (if code = ''Space'' then s1\<lparr> jumpBufferTimer := JUMP_BUFFER_TIME \<rparr> else s1)
      in if code = ''KeyR'' then resetPlayer s2 else s2)"

definition keyup :: "string \<Rightarrow> game \<Rightarrow> game" where
  "keyup code s = s\<lparr> input := input s - {code} \<rparr>"

subsection \<open>The projectile\<close>

definition tangentForward :: "vec3 \<Rightarrow> vec3" where
  "tangentForward playerPos =
     (let t = projectOnPlane (vsub playerPos enemyAnchor) enemyUp
      in if lengthSq t > 0.0001 then vnormalize t else t)"

definition throwDir :: "vec3 \<Rightarrow> vec3" where
  "throwDir playerPos =
     (if lengthSq (tangentForward playerPos) > 0.0001 then tangentForward playerPos
      else Vec3 0 0 1)"

definition knockback :: "vec3 \<Rightarrow> vec3 \<Rightarrow> vec3 \<Rightarrow> vec3" where
  "knockback playerPos boomerangPos upAtPlayer =
     multiplyScalar (vnormalize (projectOnPlane (vsub playerPos boomerangPos) upAtPlayer)) 8.5"

definition updateEnemyAndBoomerang :: "real \<Rightarrow> vec3 \<Rightarrow> vec3 \<Rightarrow> game \<Rightarrow> game" where
  "updateEnemyAndBoomerang dt playerPos upAtPlayer s =
     (let s1 = s\<lparr> boomerangCooldown := boomerangCooldown s - dt \<rparr>;
          s2 = (if \<not> boomerangActive s1 \<and> boomerangCooldown s1 \<le> 0
                then s1\<lparr> boomerangActive := True, boomerangOutward := True,
                         boomerangDistance := 0, boomerangCooldown := BOOMERANG_COOLDOWN,
                         boomerangVisible := True \<rparr>
                else s1)
      in if \<not> boomerangActive s2 then s2
         else
           let d = clamp (boomerangDistance s2
                          + (if boomerangOutward s2 then 1 else -1) * BOOMERANG_SPEED * dt)
                         0 BOOMERANG_MAX_DIST;
               s3 = s2\<lparr> boomerangDistance := d \<rparr>;
               s4 = (if d \<ge> BOOMERANG_MAX_DIST then s3\<lparr> boomerangOutward := False \<rparr> else s3)
           in if d \<le> 0 then s4\<lparr> boomerangActive := False, boomerangVisible := False \<rparr>
              else
                let boomerangPos = vadd enemyAnchor (multiplyScalar (throwDir playerPos) d);
                    s5 = s4\<lparr> boomerangPosition := boomerangPos \<rparr>
                in if distanceTo boomerangPos playerPos < BOOMERANG_HIT_RADIUS
                   then s5\<lparr> hitFlash := 0.12,
                            playerRb := setLinvel
                              (vadd (linvel (playerRb s5))
                                    (knockback playerPos boomerangPos upAtPlayer))
                              (playerRb s5) \<rparr>
                   else s5)"

subsection \<open>The physics tick\<close>

definition moveAxis :: "string set \<Rightarrow> string \<Rightarrow> string \<Rightarrow> real" where
  "moveAxis keys pos neg = (if pos \<in> keys then 1 else 0) - (if neg \<in> keys then 1 else 0)"

definition dashingOf :: "string set \<Rightarrow> bool" where
  "dashingOf keys = (''ShiftLeft'' \<in> keys \<or> ''ShiftRight'' \<in> keys)"

definition camForward :: "real \<Rightarrow> vec3 \<Rightarrow> vec3" where
  "camForward yw up = vnormalize (projectOnPlane (Vec3 (sin yw) 0 (cos yw)) up)"

definition camRight :: "real \<Rightarrow> vec3 \<Rightarrow> vec3" where
  "camRight yw up = vnormalize (crossVectors (camForward yw up) up)"

definition wishDir :: "real \<Rightarrow> vec3 \<Rightarrow> real \<Rightarrow> real \<Rightarrow> vec3" where
  "wishDir yw up moveX moveZ =
     (let wd = vadd (multiplyScalar (camForward yw up) moveZ)
                    (multiplyScalar (camRight yw up) moveX)
      in if lengthSq wd > 0 then vnormalize wd else wd)"

definition speedCap :: "bool \<Rightarrow> real" where
  "speedCap dashing = BASE_SPEED * (if dashing then DASH_MULTIPLIER else 1)"

definition maxDelta :: "bool \<Rightarrow> bool \<Rightarrow> real \<Rightarrow> real" where
  "maxDelta dashing grnd dt =
     (if grnd then BASE_ACCEL_GROUND * (if dashing then 1.2 else 1)
      else BASE_ACCEL_AIR * (if dashing then 1.1 else 1)) * dt"

definition dragOf :: "bool \<Rightarrow> bool \<Rightarrow> real" where
  "dragOf dashing grnd =
     (if grnd then BASE_DRAG_GROUND * (if dashing then 0.78 else 1) else BASE_DRAG_AIR)"

text \<open>
  Lines 201 to 224 of \<^verbatim>\<open>physicsStep\<close>: from the velocity that already holds this tick's
  gravity to the velocity handed to \<^verbatim>\<open>setLinvel\<close>.
\<close>

definition steer :: "string set \<Rightarrow> real \<Rightarrow> vec3 \<Rightarrow> bool \<Rightarrow> real \<Rightarrow> vec3 \<Rightarrow> vec3" where
  "steer keys yw up grnd dt velocity =
     (let moveX = moveAxis keys ''KeyD'' ''KeyA'';
          moveZ = moveAxis keys ''KeyW'' ''KeyS'';
          dashing = dashingOf keys;
          tangentialVel = projectOnPlane velocity up;
          normalVel = vsub velocity tangentialVel;
          targetVel = multiplyScalar (wishDir yw up moveX moveZ) (speedCap dashing);
          deltaVel0 = vsub targetVel tangentialVel;
          deltaVel = (if vlength deltaVel0 > maxDelta dashing grnd dt
                      then setLength deltaVel0 (maxDelta dashing grnd dt) else deltaVel0);
          tangentialNew = multiplyScalar (vadd tangentialVel deltaVel)
                            (max 0 (1 - dragOf dashing grnd * dt))
      in vadd tangentialNew normalVel)"

text \<open>Lines 183 to 194: the ground ray, the combo timer and the jump buffer.\<close>

definition upOf :: "game \<Rightarrow> vec3" where
  "upOf s = vnormalize (translation (playerRb s))"

definition groundPhase :: "world \<Rightarrow> real \<Rightarrow> game \<Rightarrow> game" where
  "groundPhase w dt s =
     (let p = translation (playerRb s);
          down = multiplyScalar (upOf s) (-1);
          s1 = s\<lparr> grounded := castRay w p down GROUND_RAY_LEN \<rparr>;
          s2 = (if grounded s1 \<and> \<not> wasGrounded s1 then s1\<lparr> comboTimer := Fin 0 \<rparr> else s1);
          s3 = (if grounded s2 then s2\<lparr> comboTimer := jsnum_add (comboTimer s2) dt \<rparr> else s2);
          s4 = (if jsnum_gt (comboTimer s3) JUMP_COMBO_WINDOW
                then s3\<lparr> jumpComboIndex := 0 \<rparr> else s3)
      in if jumpBufferTimer s4 > 0 then s4\<lparr> jumpBufferTimer := jumpBufferTimer s4 - dt \<rparr>
         else s4)"

text \<open>Lines 196 to 199: the velocity read at tick start, with gravity added.\<close>

definition gravityVelocity :: "real \<Rightarrow> game \<Rightarrow> vec3" where
  "gravityVelocity dt s =
     addScaledVector (linvel (playerRb s)) (multiplyScalar (upOf s) (-1)) (GRAVITY * dt)"

text \<open>The velocity given to \<^verbatim>\<open>setLinvel\<close> at line 226 or, once cleared, at line 238.\<close>

definition committedVelocity :: "real \<Rightarrow> game \<Rightarrow> vec3" where
  "committedVelocity dt s =
     (if \<not> isClear s
      then steer (input s) (yaw s) (upOf s) (grounded s) dt (gravityVelocity dt s)
      else gravityVelocity dt s)"

text \<open>The test of line 228, behind the gate of line 200.\<close>

definition jumpFires :: "game \<Rightarrow> bool" where
  "jumpFires s = (\<not> isClear s \<and> grounded s \<and> jumpBufferTimer s > 0)"

text \<open>
  Lines 229 to 235. The index is below 3 in every reachable state (lemma
  \<open>combo_index_in_range\<close>), so the lookup in \<open>JUMP_IMPULSES\<close> stays inside the table.
\<close>

definition jump :: "world \<Rightarrow> game \<Rightarrow> game" where
  "jump w s =
     (let s1 = (if jsnum_gt (comboTimer s) JUMP_COMBO_WINDOW
                then s\<lparr> jumpComboIndex := 0 \<rparr> else s);
          jumpImpulse = JUMP_IMPULSES ! jumpComboIndex s1
      in s1\<lparr> playerRb := applyImpulse w (multiplyScalar (upOf s1) jumpImpulse) (playerRb s1),
             grounded := False,
             jumpBufferTimer := 0,
             comboTimer := PosInf,
             jumpComboIndex := (if jumpComboIndex s1 \<ge> length JUMP_IMPULSES - 1 then 0
                                else jumpComboIndex s1 + 1) \<rparr>)"

text \<open>Lines 196 to 239: everything between the timers and \<^verbatim>\<open>world.step()\<close>.\<close>

definition movePhase :: "world \<Rightarrow> real \<Rightarrow> game \<Rightarrow> game" where
  "movePhase w dt s =
     (let s1 = s\<lparr> playerRb := setLinvel (committedVelocity dt s) (playerRb s) \<rparr>
      in if jumpFires s1 then jump w s1 else s1)"

text \<open>Lines 241 to 253: the backend's step, the escape reset, the projectile, the goal.\<close>

definition escaped :: "vec3 \<Rightarrow> bool" where
  "escaped playerNow = (vlength playerNow > PLANET_RADIUS + ESCAPE_MARGIN)"

definition goalPhase :: "real \<Rightarrow> game \<Rightarrow> game" where
  "goalPhase dt s =
     (let s1 = s\<lparr> wasGrounded := grounded s \<rparr>;
          playerNow = translation (playerRb s1);
          s2 = (if escaped playerNow then resetPlayer s1 else s1);
          s3 = updateEnemyAndBoomerang dt playerNow (vnormalize playerNow) s2
      in if \<not> isClear s3 \<and> distanceTo playerNow goalPos < CLEAR_RADIUS
         then s3\<lparr> isClear := True \<rparr> else s3)"

definition worldStep :: "world \<Rightarrow> game \<Rightarrow> game" where
  "worldStep w s = s\<lparr> playerRb := step w (playerRb s) \<rparr>"

text \<open>The tick up to \<^verbatim>\<open>world.step()\<close>, and the whole tick.\<close>

definition preStep :: "world \<Rightarrow> real \<Rightarrow> game \<Rightarrow> game" where
  "preStep w dt s = movePhase w dt (groundPhase w dt s)"

definition physicsStep :: "world \<Rightarrow> real \<Rightarrow> game \<Rightarrow> game" where
  "physicsStep w dt s = goalPhase dt (worldStep w (preStep w dt s))"

subsection \<open>Runs\<close>

text \<open>
  What happens to the program, in order: a fixed tick of the loop (with what the backend
  does during it) or an event of the page.
\<close>

datatype event =
    Tick world
  | KeyDown string
  | KeyUp string
  | MouseMove bool real real

fun apply_event :: "event \<Rightarrow> game \<Rightarrow> game" where
  "apply_event (Tick w) s = physicsStep w fixedDt s"
| "apply_event (KeyDown code) s = keydown code s"
| "apply_event (KeyUp code) s = keyup code s"
| "apply_event (MouseMove locked mx my) s = mousemove locked mx my s"

fun run :: "event list \<Rightarrow> game \<Rightarrow> game" where
  "run [] s = s"
| "run (e # es) s = run es (apply_event e s)"

inductive reachable :: "game \<Rightarrow> bool" where
  reachable_init: "reachable initialGame"
| reachable_event: "reachable s \<Longrightarrow> reachable (apply_event e s)"

text \<open>
  The loop calls \<open>physicsStep\<close> with \<open>fixedDt\<close> only. To say what the projectile does
  whatever the step, \<open>ticksWith\<close> runs successive ticks with any \<open>dt\<close>.
\<close>

fun ticksWith :: "real \<Rightarrow> world list \<Rightarrow> game \<Rightarrow> game" where
  "ticksWith dt [] s = s"
| "ticksWith dt (w # ws) s = ticksWith dt ws (physicsStep w dt s)"

section \<open>Vocabulary of the proofs\<close>

subsection \<open>The projectile's scalar state\<close>

text \<open>
  What \<open>updateEnemyAndBoomerang\<close> does to the flags, the distance and the cooldown depends
  on them and on \<open>dt\<close> alone: whether the tick launches (the test of line 148, after the
  subtraction of line 138), whether the projectile moves in the tick, and the distance
  lines 159 and 160 compute.
\<close>

definition launches :: "real \<Rightarrow> game \<Rightarrow> bool" where
  "launches dt s = (\<not> boomerangActive s \<and> boomerangCooldown s - dt \<le> 0)"

definition flies :: "real \<Rightarrow> game \<Rightarrow> bool" where
  "flies dt s = (boomerangActive s \<or> launches dt s)"

definition nextDistance :: "real \<Rightarrow> game \<Rightarrow> real" where
  "nextDistance dt s =
     clamp ((if launches dt s then 0 else boomerangDistance s)
            + (if launches dt s \<or> boomerangOutward s then 1 else -1) * BOOMERANG_SPEED * dt)
       0 BOOMERANG_MAX_DIST"

text \<open>The state the projectile update of a tick starts from (lines 242 to 247).\<close>

definition beforeUpdate :: "game \<Rightarrow> game" where
  "beforeUpdate s =
     (let s1 = s\<lparr> wasGrounded := grounded s \<rparr>
      in if escaped (translation (playerRb s1)) then resetPlayer s1 else s1)"

text \<open>The invariant of the projectile.\<close>

definition boomerangInv :: "game \<Rightarrow> bool" where
  "boomerangInv s =
     (0 \<le> boomerangDistance s \<and> boomerangDistance s \<le> BOOMERANG_MAX_DIST
      \<and> (\<not> boomerangActive s \<longleftrightarrow> boomerangDistance s = 0)
      \<and> (boomerangVisible s \<longleftrightarrow> boomerangActive s))"

subsection \<open>Resets and ticks in the air\<close>

text \<open>Whether an event resets the player: the R key, or a tick whose step ends out of bounds.\<close>

fun resets :: "event \<Rightarrow> game \<Rightarrow> bool" where
  "resets (Tick w) s = escaped (translation (step w (playerRb (preStep w fixedDt s))))"
| "resets (KeyDown code) s = (code = ''KeyR'')"
| "resets (KeyUp code) s = False"
| "resets (MouseMove locked mx my) s = False"

fun noReset :: "event list \<Rightarrow> game \<Rightarrow> bool" where
  "noReset [] s = True"
| "noReset (e # es) s = (\<not> resets e s \<and> noReset es (apply_event e s))"

text \<open>Ticks in the air that end in bounds: the ray misses and no reset fires.\<close>

fun quietTicks :: "world list \<Rightarrow> game \<Rightarrow> bool" where
  "quietTicks [] s = True"
| "quietTicks (w # ws) s =
     (\<not> castRay w (translation (playerRb s)) (multiplyScalar (upOf s) (-1)) GROUND_RAY_LEN
      \<and> \<not> escaped (translation (step w (playerRb (preStep w fixedDt s))))
      \<and> quietTicks ws (physicsStep w fixedDt s))"



section \<open>Example backends and states\<close>

text \<open>
  Backends: one that leaves the body where it is, with a ray that reports \<open>hit\<close>; one
  that throws the body far above the north pole; one that puts it on the goal; one that
  puts it back on the spawn point.
\<close>

definition stillWorld :: "bool \<Rightarrow> world" where
  "stillWorld hit = \<lparr> castRay = (\<lambda>p d l. hit), step = (\<lambda>b. b), invMass = 1 / 3 \<rparr>"

definition flungWorld :: world where
  "flungWorld = \<lparr> castRay = (\<lambda>p d l. False),
                   step = (\<lambda>b. b\<lparr> translation := Vec3 0 200 0 \<rparr>), invMass = 1 / 3 \<rparr>"

definition goalWorld :: world where
  "goalWorld = \<lparr> castRay = (\<lambda>p d l. True),
                  step = (\<lambda>b. b\<lparr> translation := goalPos \<rparr>), invMass = 1 / 3 \<rparr>"

definition homeWorld :: world where
  "homeWorld = \<lparr> castRay = (\<lambda>p d l. True),
                  step = (\<lambda>b. b\<lparr> translation := spawnPoint \<rparr>), invMass = 1 / 3 \<rparr>"

text \<open>
  A backend for a player coming down the polar axis, \<open>v\<close> per tick: its ray hits when the
  planet's surface is within the ray's length of the body.
\<close>

definition sinkWorld :: "real \<Rightarrow> world" where
  "sinkWorld v = \<lparr> castRay = (\<lambda>p d l. vlength p \<le> PLANET_RADIUS + l),
                    step = (\<lambda>b. b\<lparr> translation := Vec3 0 (vy (translation b) - v) 0 \<rparr>),
                    invMass = 1 / 3 \<rparr>"

text \<open>
  The projectile twenty ticks after a launch, and one tick before a launch.
\<close>

definition midFlight :: game where
  "midFlight = initialGame\<lparr> boomerangActive := True, boomerangOutward := True,
     boomerangDistance := 8, boomerangCooldown := 101 / 60, boomerangVisible := True \<rparr>"

definition readyToLaunch :: game where
  "readyToLaunch = initialGame\<lparr> boomerangCooldown := 1 / 60 \<rparr>"

text \<open>The state after a first jump from the spawn point.\<close>

definition afterFirstJump :: game where
  "afterFirstJump = run [KeyDown ''Space'', Tick (stillWorld True)] initialGame"







definition clearedPress :: game where
  "clearedPress = keydown ''Space'' (initialGame\<lparr> isClear := True \<rparr>)"

definition sprinting :: game where
  "sprinting = initialGame\<lparr> playerRb := \<lparr> translation = spawnPoint, linvel = Vec3 18 0 0 \<rparr> \<rparr>"

section \<open>Vector algebra\<close>

lemmas vec_defs = vadd_def vsub_def multiplyScalar_def addScaledVector_def dot_def
  crossVectors_def lengthSq_def divideScalar_def projectOnPlane_def

lemma lengthSq_nonneg: "0 \<le> lengthSq a"
  by (simp add: lengthSq_def)

lemma vlength_nonneg: "0 \<le> vlength a"
  by (simp add: vlength_def lengthSq_nonneg)

lemma lengthSq_eq_dot: "lengthSq a = dot a a"
  by (simp add: lengthSq_def dot_def)

lemma vlength_sq: "vlength a * vlength a = lengthSq a"
  by (simp add: vlength_def lengthSq_nonneg)

lemma lengthSq_zero_iff: "lengthSq a = 0 \<longleftrightarrow> a = Vec3 0 0 0"
proof (cases a)
  case (Vec3 x y z)
  have "x * x + y * y + z * z = 0 \<longleftrightarrow> x = 0 \<and> y = 0 \<and> z = 0"
  proof
    assume h: "x * x + y * y + z * z = 0"
    have "0 \<le> x * x" "0 \<le> y * y" "0 \<le> z * z" by simp_all
    with h have "x * x = 0" "y * y = 0" "z * z = 0" by linarith+
    then show "x = 0 \<and> y = 0 \<and> z = 0" by simp
  qed simp
  with Vec3 show ?thesis by (simp add: lengthSq_def)
qed

lemma vlength_zero_iff: "vlength a = 0 \<longleftrightarrow> a = Vec3 0 0 0"
  by (simp add: vlength_def lengthSq_zero_iff)

lemma normDivisor_pos: "0 < normDivisor a"
  using vlength_nonneg [of a] by (simp add: normDivisor_def)

lemma vnormalize_zero: "vnormalize (Vec3 0 0 0) = Vec3 0 0 0"
  by (simp add: vnormalize_def divideScalar_def multiplyScalar_def)

lemma dot_multiplyScalar_left: "dot (multiplyScalar a c) b = c * dot a b"
  by (simp add: vec_defs algebra_simps)

lemma dot_normalize_left: "dot (vnormalize a) b = dot a b / normDivisor a"
  by (simp add: vnormalize_def divideScalar_def dot_multiplyScalar_left)

lemma lengthSq_multiplyScalar: "lengthSq (multiplyScalar a c) = c * c * lengthSq a"
  by (simp add: vec_defs algebra_simps)

lemma vlength_multiplyScalar: "vlength (multiplyScalar a c) = \<bar>c\<bar> * vlength a"
  by (simp add: vlength_def lengthSq_multiplyScalar real_sqrt_mult)

lemma vlength_normalize: "a \<noteq> Vec3 0 0 0 \<Longrightarrow> vlength (vnormalize a) = 1"
proof -
  assume "a \<noteq> Vec3 0 0 0"
  then have nz: "vlength a \<noteq> 0" by (simp add: vlength_zero_iff)
  then have "normDivisor a = vlength a" by (simp add: normDivisor_def)
  with nz vlength_nonneg [of a] show ?thesis
    by (simp add: vnormalize_def divideScalar_def vlength_multiplyScalar)
qed

lemma vlength_zero: "vlength (Vec3 0 0 0) = 0"
  by (simp add: vlength_def lengthSq_def)

lemma vlength_normalize_le: "vlength (vnormalize a) \<le> 1"
  by (cases "a = Vec3 0 0 0") (simp_all add: vlength_normalize vnormalize_zero vlength_zero)

lemma dot_unit: "vlength a = 1 \<Longrightarrow> dot a a = 1"
  using vlength_sq [of a] by (simp add: lengthSq_eq_dot)

lemma dot_projectOnPlane: "dot n n = 1 \<Longrightarrow> dot (projectOnPlane v n) n = 0"
proof -
  assume u: "dot n n = 1"
  have "dot (projectOnPlane v n) n = dot v n - dot v n * dot n n"
    by (simp add: vec_defs algebra_simps)
  with u show ?thesis by simp
qed

lemma dot_cross_right: "dot (crossVectors a b) b = 0"
  by (simp add: vec_defs algebra_simps)

lemma cauchy_schwarz: "dot a b * dot a b \<le> lengthSq a * lengthSq b"
proof -
  have "lengthSq a * lengthSq b - dot a b * dot a b = lengthSq (crossVectors a b)"
    by (simp add: vec_defs algebra_simps)
  then show ?thesis using lengthSq_nonneg [of "crossVectors a b"] by linarith
qed

lemma dot_le_vlength: "dot a b \<le> vlength a * vlength b"
proof -
  have "\<bar>dot a b\<bar> = sqrt (dot a b * dot a b)" by simp
  also have "\<dots> \<le> sqrt (lengthSq a * lengthSq b)"
    using cauchy_schwarz by (rule real_sqrt_le_mono)
  also have "\<dots> = vlength a * vlength b" by (simp add: vlength_def real_sqrt_mult)
  finally show ?thesis by linarith
qed

lemma vlength_triangle: "vlength (vadd a b) \<le> vlength a + vlength b"
proof -
  have "lengthSq (vadd a b) = lengthSq a + 2 * dot a b + lengthSq b"
    by (simp add: vec_defs algebra_simps)
  also have "\<dots> \<le> lengthSq a + 2 * (vlength a * vlength b) + lengthSq b"
    using dot_le_vlength [of a b] by simp
  also have "\<dots> = (vlength a + vlength b) * (vlength a + vlength b)"
    using vlength_sq [of a] vlength_sq [of b] by (simp add: algebra_simps)
  finally have "sqrt (lengthSq (vadd a b)) \<le> sqrt ((vlength a + vlength b) * (vlength a + vlength b))"
    by (rule real_sqrt_le_mono)
  then show ?thesis using vlength_nonneg [of a] vlength_nonneg [of b]
    by (simp add: vlength_def [of "vadd a b"])
qed

lemma distanceTo_vlength: "distanceTo a b = vlength (vsub a b)"
  by (simp add: distanceTo_def vlength_def)

lemma vlength_vsub_ge: "vlength b - vlength a \<le> vlength (vsub a b)"
proof -
  have e: "vadd a (multiplyScalar (vsub a b) (-1)) = b" by (cases a; cases b) (simp add: vec_defs)
  have "vlength b \<le> vlength a + vlength (multiplyScalar (vsub a b) (-1))"
    using vlength_triangle [of a "multiplyScalar (vsub a b) (-1)"] by (simp add: e)
  then show ?thesis by (simp add: vlength_multiplyScalar)
qed

section \<open>Locomotion\<close>

lemma dot_vadd_left: "dot (vadd a b) c = dot a c + dot b c"
  by (simp add: vec_defs algebra_simps)

lemma dot_vsub_left: "dot (vsub a b) c = dot a c - dot b c"
  by (simp add: vec_defs algebra_simps)

lemma dot_addScaledVector: "dot (addScaledVector a b k) c = dot a c + k * dot b c"
  by (simp add: vec_defs algebra_simps)

lemma dot_setLength: "dot (setLength a l) b = l * (dot a b / normDivisor a)"
  by (simp add: setLength_def dot_multiplyScalar_left dot_normalize_left)

lemma normal_part: "vsub c (projectOnPlane c u) = multiplyScalar u (dot c u)"
  by (cases c; cases u) (simp add: vec_defs)

lemma upOf_unit: "translation (playerRb s) \<noteq> Vec3 0 0 0 \<Longrightarrow> dot (upOf s) (upOf s) = 1"
  by (simp add: upOf_def dot_unit vlength_normalize)

lemma dot_camForward: "dot u u = 1 \<Longrightarrow> dot (camForward yw u) u = 0"
  by (simp add: camForward_def dot_normalize_left dot_projectOnPlane)

lemma dot_camRight: "dot (camRight yw u) u = 0"
  by (simp add: camRight_def dot_normalize_left dot_cross_right)

lemma dot_wishDir: "dot u u = 1 \<Longrightarrow> dot (wishDir yw u mx mz) u = 0"
  by (simp add: wishDir_def Let_def dot_normalize_left dot_vadd_left dot_multiplyScalar_left
      dot_camForward dot_camRight)

lemma dot_steer: "dot u u = 1 \<Longrightarrow> dot (steer keys yw u g dt v) u = dot v u"
  by (simp add: steer_def Let_def dot_vadd_left dot_vsub_left dot_multiplyScalar_left
      dot_setLength dot_wishDir dot_projectOnPlane normal_part)

lemma dot_gravityVelocity:
  "dot (gravityVelocity dt s) (upOf s)
     = dot (linvel (playerRb s)) (upOf s) - GRAVITY * dt * dot (upOf s) (upOf s)"
  by (simp add: gravityVelocity_def dot_addScaledVector dot_multiplyScalar_left)

lemma dot_committedVelocity:
  "dot (upOf s) (upOf s) = 1 \<Longrightarrow>
   dot (committedVelocity dt s) (upOf s) = dot (linvel (playerRb s)) (upOf s) - GRAVITY * dt"
  by (simp add: committedVelocity_def dot_steer dot_gravityVelocity)

text \<open>Field projections of the ground phase.\<close>

lemma groundPhase_playerRb [simp]: "playerRb (groundPhase w dt s) = playerRb s"
  by (simp add: groundPhase_def Let_def)

lemma groundPhase_upOf [simp]: "upOf (groundPhase w dt s) = upOf s"
  by (simp add: upOf_def)

lemma groundPhase_isClear [simp]: "isClear (groundPhase w dt s) = isClear s"
  by (simp add: groundPhase_def Let_def)

lemma groundPhase_input [simp]: "input (groundPhase w dt s) = input s"
  by (simp add: groundPhase_def Let_def)

lemma groundPhase_grounded:
  "grounded (groundPhase w dt s)
     = castRay w (translation (playerRb s)) (multiplyScalar (upOf s) (-1)) GROUND_RAY_LEN"
  by (simp add: groundPhase_def Let_def)

lemma groundPhase_combo_reset:
  "jsnum_gt (comboTimer (groundPhase w dt s)) JUMP_COMBO_WINDOW \<Longrightarrow>
   jumpComboIndex (groundPhase w dt s) = 0"
  by (simp add: groundPhase_def Let_def split: if_splits)

lemma movePhase_linvel:
  "linvel (playerRb (movePhase w dt g))
     = (if jumpFires g
        then vadd (committedVelocity dt g)
               (multiplyScalar (multiplyScalar (upOf g)
                  (JUMP_IMPULSES ! (if jsnum_gt (comboTimer g) JUMP_COMBO_WINDOW then 0
                                    else jumpComboIndex g)))
                  (invMass w))
        else committedVelocity dt g)"
  by (simp add: movePhase_def Let_def jump_def jumpFires_def applyImpulse_def setLinvel_def upOf_def)

lemma vlength_axis_y: "vlength (Vec3 0 b 0) = \<bar>b\<bar>"
  by (simp add: vlength_def lengthSq_def)

lemma spawnPoint_nonzero: "spawnPoint \<noteq> Vec3 0 0 0"
  by (simp add: spawnPoint_def PLANET_RADIUS_def)

lemma vnormalize_spawnPoint: "vnormalize spawnPoint = Vec3 0 1 0"
  by (simp add: spawnPoint_def PLANET_RADIUS_def vnormalize_def normDivisor_def
      vlength_axis_y divideScalar_def multiplyScalar_def)

section \<open>Gravity and the normal component\<close>

text \<open>
  C1. In every tick whose player is not at the planet centre, the velocity handed to the
  body has its component along \<open>up = normalize(position)\<close> equal to that of the velocity
  read at tick start minus \<open>GRAVITY * dt\<close>; the body's velocity just before
  \<^verbatim>\<open>world.step()\<close> adds to that the jump impulse of the tick, if a jump fired (the
  impulse times the body's inverse mass, as \<^verbatim>\<open>applyImpulse\<close> does); and steering, the
  acceleration clamp and drag leave the normal part of the velocity as gravity left it.
\<close>

theorem normal_velocity_gravity_only:
  assumes "translation (playerRb s) \<noteq> Vec3 0 0 0"
  shows "dot (committedVelocity dt (groundPhase w dt s)) (upOf s)
           = dot (linvel (playerRb s)) (upOf s) - GRAVITY * dt
       \<and> dot (linvel (playerRb (preStep w dt s))) (upOf s)
           = dot (linvel (playerRb s)) (upOf s) - GRAVITY * dt
             + (if jumpFires (groundPhase w dt s)
                then JUMP_IMPULSES ! jumpComboIndex (groundPhase w dt s) * invMass w else 0)
       \<and> vsub (committedVelocity dt (groundPhase w dt s))
              (projectOnPlane (committedVelocity dt (groundPhase w dt s)) (upOf s))
           = vsub (gravityVelocity dt s) (projectOnPlane (gravityVelocity dt s) (upOf s))"
proof -
  let ?g = "groundPhase w dt s"
  have u: "dot (upOf ?g) (upOf ?g) = 1" using assms by (simp add: upOf_unit)
  have c: "dot (committedVelocity dt ?g) (upOf s) = dot (linvel (playerRb s)) (upOf s) - GRAVITY * dt"
    using dot_committedVelocity [OF u] by simp
  have idx: "(if jsnum_gt (comboTimer ?g) JUMP_COMBO_WINDOW then 0 else jumpComboIndex ?g)
               = jumpComboIndex ?g"
    using groundPhase_combo_reset [of w dt s] by simp
  have j: "dot (linvel (playerRb (preStep w dt s))) (upOf s)
           = dot (linvel (playerRb s)) (upOf s) - GRAVITY * dt
             + (if jumpFires ?g then JUMP_IMPULSES ! jumpComboIndex ?g * invMass w else 0)"
    using u c by (simp add: preStep_def movePhase_linvel idx dot_vadd_left dot_multiplyScalar_left)
  have g: "dot (gravityVelocity dt s) (upOf s) = dot (linvel (playerRb s)) (upOf s) - GRAVITY * dt"
    using u by (simp add: dot_gravityVelocity)
  have n: "vsub (committedVelocity dt ?g) (projectOnPlane (committedVelocity dt ?g) (upOf s))
           = vsub (gravityVelocity dt s) (projectOnPlane (gravityVelocity dt s) (upOf s))"
    by (simp add: normal_part c g)
  from c j n show ?thesis by simp
qed

theorem normal_velocity_gravity_only_witness:
  "translation (playerRb (keydown ''Space'' initialGame)) \<noteq> Vec3 0 0 0
   \<and> jumpFires (groundPhase (stillWorld True) fixedDt (keydown ''Space'' initialGame))
   \<and> dot (linvel (playerRb (preStep (stillWorld True) fixedDt (keydown ''Space'' initialGame))))
          (Vec3 0 1 0) = 7 / 3 - 28 / 60"
proof -
  let ?s = "keydown ''Space'' initialGame"
  have p: "playerRb ?s = \<lparr> translation = spawnPoint, linvel = Vec3 0 0 0 \<rparr>"
    by (simp add: keydown_def Let_def initialGame_def)
  have nz: "translation (playerRb ?s) \<noteq> Vec3 0 0 0"
    by (simp add: p spawnPoint_nonzero)
  have up: "upOf ?s = Vec3 0 1 0"
    by (simp add: upOf_def p vnormalize_spawnPoint)
  have f: "jumpFires (groundPhase (stillWorld True) fixedDt ?s)"
    by (simp add: jumpFires_def groundPhase_def Let_def keydown_def initialGame_def
        stillWorld_def JUMP_BUFFER_TIME_def fixedDt_def JUMP_COMBO_WINDOW_def)
  have i: "jumpComboIndex (groundPhase (stillWorld True) fixedDt ?s) = 0"
    by (simp add: groundPhase_def Let_def keydown_def initialGame_def)
  have m: "invMass (stillWorld True) = 1 / 3"
    by (simp add: stillWorld_def)
  have g: "GRAVITY * fixedDt = 28 / 60"
    by (simp add: GRAVITY_def fixedDt_def)
  show ?thesis
    using normal_velocity_gravity_only [OF nz, of fixedDt "stillWorld True"] nz f
    by (simp add: up i p m g dot_def JUMP_IMPULSES_def)
qed

section \<open>The escape reset\<close>

lemma vlength_enemyUp: "vlength enemyUp = 1"
  by (simp add: enemyUp_def vlength_normalize)

lemma vlength_enemyAnchor: "vlength enemyAnchor = 101.6"
  by (simp add: enemyAnchor_def vlength_multiplyScalar vlength_enemyUp PLANET_RADIUS_def)

lemma vlength_goalPos: "vlength goalPos = 101.4"
  by (simp add: goalPos_def vlength_multiplyScalar vlength_normalize PLANET_RADIUS_def)

lemma vlength_axis_z: "vlength (Vec3 0 0 c) = \<bar>c\<bar>"
  by (simp add: vlength_def lengthSq_def)

lemma vlength_throwDir: "vlength (throwDir p) = 1"
proof (cases "lengthSq (projectOnPlane (vsub p enemyAnchor) enemyUp) > 0.0001")
  case True
  then have nz: "projectOnPlane (vsub p enemyAnchor) enemyUp \<noteq> Vec3 0 0 0"
    by (auto simp: lengthSq_def)
  have t: "tangentForward p = vnormalize (projectOnPlane (vsub p enemyAnchor) enemyUp)"
    using True by (simp add: tangentForward_def Let_def)
  have l: "vlength (tangentForward p) = 1"
    by (simp add: t vlength_normalize nz)
  then have "lengthSq (tangentForward p) = 1"
    using vlength_sq [of "tangentForward p"] by simp
  then show ?thesis using l by (simp add: throwDir_def)
next
  case False
  then have "tangentForward p = projectOnPlane (vsub p enemyAnchor) enemyUp"
    by (simp add: tangentForward_def Let_def)
  with False show ?thesis by (simp add: throwDir_def vlength_axis_z)
qed

lemma clamp_bounds: "lo \<le> hi \<Longrightarrow> lo \<le> clamp v lo hi \<and> clamp v lo hi \<le> hi"
  by (simp add: clamp_def)

lemma boomerang_within_reach:
  assumes "0 \<le> d" "d \<le> BOOMERANG_MAX_DIST"
  shows "vlength (vadd enemyAnchor (multiplyScalar (throwDir p) d)) \<le> 117.6"
proof -
  have "vlength (vadd enemyAnchor (multiplyScalar (throwDir p) d))
          \<le> vlength enemyAnchor + vlength (multiplyScalar (throwDir p) d)"
    by (rule vlength_triangle)
  also have "\<dots> = 101.6 + d"
    using assms by (simp add: vlength_enemyAnchor vlength_multiplyScalar vlength_throwDir)
  also have "\<dots> \<le> 117.6" using assms by (simp add: BOOMERANG_MAX_DIST_def)
  finally show ?thesis .
qed

lemma escaped_far_from_boomerang:
  assumes "escaped pn" "0 \<le> d" "d \<le> BOOMERANG_MAX_DIST"
  shows "\<not> distanceTo (vadd enemyAnchor (multiplyScalar (throwDir p) d)) pn < BOOMERANG_HIT_RADIUS"
proof -
  let ?b = "vadd enemyAnchor (multiplyScalar (throwDir p) d)"
  have "vlength pn - vlength ?b \<le> distanceTo ?b pn"
    by (simp add: distanceTo_vlength vlength_vsub_ge)
  moreover have "vlength ?b \<le> 117.6" using assms(2,3) by (rule boomerang_within_reach)
  moreover have "vlength pn > 160"
    using assms by (simp add: escaped_def PLANET_RADIUS_def ESCAPE_MARGIN_def)
  ultimately show ?thesis by (simp add: BOOMERANG_HIT_RADIUS_def)
qed

lemma escaped_far_from_goal:
  assumes "escaped pn"
  shows "\<not> distanceTo pn goalPos < CLEAR_RADIUS"
proof -
  have "vlength pn - vlength goalPos \<le> distanceTo goalPos pn"
    by (simp add: distanceTo_vlength vlength_vsub_ge)
  moreover have "distanceTo goalPos pn = distanceTo pn goalPos"
    by (simp add: distanceTo_def lengthSq_def vsub_def power2_commute algebra_simps)
  moreover have "vlength pn > 160"
    using assms by (simp add: escaped_def PLANET_RADIUS_def ESCAPE_MARGIN_def)
  ultimately show ?thesis by (simp add: CLEAR_RADIUS_def vlength_goalPos)
qed

text \<open>What the projectile update leaves alone.\<close>

lemma update_keeps:
  "isClear (updateEnemyAndBoomerang dt p u s) = isClear s"
  "jumpComboIndex (updateEnemyAndBoomerang dt p u s) = jumpComboIndex s"
  "comboTimer (updateEnemyAndBoomerang dt p u s) = comboTimer s"
  "jumpBufferTimer (updateEnemyAndBoomerang dt p u s) = jumpBufferTimer s"
  "grounded (updateEnemyAndBoomerang dt p u s) = grounded s"
  "wasGrounded (updateEnemyAndBoomerang dt p u s) = wasGrounded s"
  "input (updateEnemyAndBoomerang dt p u s) = input s"
  "yaw (updateEnemyAndBoomerang dt p u s) = yaw s"
  "translation (playerRb (updateEnemyAndBoomerang dt p u s)) = translation (playerRb s)"
  by (simp_all add: updateEnemyAndBoomerang_def Let_def setLinvel_def)

lemma update_no_hit_when_escaped:
  assumes "escaped p"
  shows "playerRb (updateEnemyAndBoomerang dt p u s) = playerRb s"
    and "hitFlash (updateEnemyAndBoomerang dt p u s) = hitFlash s"
proof -
  have far: "\<And>v. \<not> distanceTo (vadd enemyAnchor (multiplyScalar (throwDir p)
               (clamp v 0 BOOMERANG_MAX_DIST))) p < BOOMERANG_HIT_RADIUS"
    using assms by (intro escaped_far_from_boomerang) (simp_all add: clamp_def BOOMERANG_MAX_DIST_def)
  show "playerRb (updateEnemyAndBoomerang dt p u s) = playerRb s"
    by (simp add: updateEnemyAndBoomerang_def Let_def far)
  show "hitFlash (updateEnemyAndBoomerang dt p u s) = hitFlash s"
    by (simp add: updateEnemyAndBoomerang_def Let_def far)
qed

lemma goalPhase_escaped:
  assumes "escaped (translation (playerRb s))"
  shows "translation (playerRb (goalPhase dt s)) = spawnPoint"
    and "linvel (playerRb (goalPhase dt s)) = Vec3 0 0 0"
    and "jumpComboIndex (goalPhase dt s) = 0"
    and "jumpBufferTimer (goalPhase dt s) = 0"
    and "comboTimer (goalPhase dt s) = PosInf"
    and "\<not> isClear (goalPhase dt s)"
  using assms
  by (simp_all add: goalPhase_def Let_def update_keeps update_no_hit_when_escaped
      escaped_far_from_goal resetPlayer_def setLinvel_def setTranslation_def)

lemma worldStep_playerRb: "playerRb (worldStep w s) = step w (playerRb s)"
  by (simp add: worldStep_def)

text \<open>
  C7. If after \<^verbatim>\<open>world.step()\<close> the player is farther than \<open>R + ESCAPE_MARGIN\<close> from the
  planet centre, the tick ends with the player at the spawn point, with zero velocity,
  combo index 0, jump buffer 0, the combo timer disarmed and the cleared flag off,
  whatever the state before.
\<close>

theorem escape_resets_player:
  assumes "escaped (translation (step w (playerRb (preStep w dt s))))"
  shows "translation (playerRb (physicsStep w dt s)) = spawnPoint
       \<and> linvel (playerRb (physicsStep w dt s)) = Vec3 0 0 0
       \<and> jumpComboIndex (physicsStep w dt s) = 0
       \<and> jumpBufferTimer (physicsStep w dt s) = 0
       \<and> comboTimer (physicsStep w dt s) = PosInf
       \<and> \<not> isClear (physicsStep w dt s)"
proof -
  have e: "escaped (translation (playerRb (worldStep w (preStep w dt s))))"
    using assms by (simp add: worldStep_playerRb)
  show ?thesis
    unfolding physicsStep_def using goalPhase_escaped [OF e, of dt] by simp
qed

theorem escape_resets_player_witness:
  "escaped (translation (step flungWorld (playerRb (preStep flungWorld fixedDt
      (initialGame\<lparr> isClear := True, jumpComboIndex := 2, jumpBufferTimer := 0.1 \<rparr>)))))
   \<and> translation (playerRb (physicsStep flungWorld fixedDt
        (initialGame\<lparr> isClear := True, jumpComboIndex := 2, jumpBufferTimer := 0.1 \<rparr>)))
       = spawnPoint
   \<and> linvel (playerRb (physicsStep flungWorld fixedDt
        (initialGame\<lparr> isClear := True, jumpComboIndex := 2, jumpBufferTimer := 0.1 \<rparr>)))
       = Vec3 0 0 0
   \<and> jumpComboIndex (physicsStep flungWorld fixedDt
        (initialGame\<lparr> isClear := True, jumpComboIndex := 2, jumpBufferTimer := 0.1 \<rparr>)) = 0
   \<and> \<not> isClear (physicsStep flungWorld fixedDt
        (initialGame\<lparr> isClear := True, jumpComboIndex := 2, jumpBufferTimer := 0.1 \<rparr>))"
proof -
  let ?s = "initialGame\<lparr> isClear := True, jumpComboIndex := 2, jumpBufferTimer := 0.1 \<rparr>"
  have h: "escaped (translation (step flungWorld (playerRb (preStep flungWorld fixedDt ?s))))"
    by (simp add: flungWorld_def escaped_def vlength_axis_y PLANET_RADIUS_def ESCAPE_MARGIN_def)
  show ?thesis
    using escape_resets_player [OF h] h by simp
qed

section \<open>The projectile\<close>

lemma update_cooldown:
  "boomerangCooldown (updateEnemyAndBoomerang dt p u s)
     = (if launches dt s then BOOMERANG_COOLDOWN else boomerangCooldown s - dt)"
  by (simp add: updateEnemyAndBoomerang_def Let_def launches_def)

lemma update_active:
  "boomerangActive (updateEnemyAndBoomerang dt p u s) = (flies dt s \<and> 0 < nextDistance dt s)"
  by (auto simp add: updateEnemyAndBoomerang_def Let_def launches_def flies_def nextDistance_def)

lemma update_distance:
  "boomerangDistance (updateEnemyAndBoomerang dt p u s)
     = (if flies dt s then nextDistance dt s else boomerangDistance s)"
  by (auto simp add: updateEnemyAndBoomerang_def Let_def launches_def flies_def nextDistance_def)

lemma update_outward:
  "boomerangOutward (updateEnemyAndBoomerang dt p u s)
     = (if flies dt s
        then (launches dt s \<or> boomerangOutward s) \<and> nextDistance dt s < BOOMERANG_MAX_DIST
        else boomerangOutward s)"
  by (auto simp add: updateEnemyAndBoomerang_def Let_def launches_def flies_def nextDistance_def)

lemma update_visible:
  "boomerangVisible (updateEnemyAndBoomerang dt p u s)
     = (if flies dt s
        then (launches dt s \<or> boomerangVisible s) \<and> 0 < nextDistance dt s
        else boomerangVisible s)"
  by (auto simp add: updateEnemyAndBoomerang_def Let_def launches_def flies_def nextDistance_def)

lemma update_position:
  "boomerangActive (updateEnemyAndBoomerang dt p u s) \<Longrightarrow>
   boomerangPosition (updateEnemyAndBoomerang dt p u s)
     = vadd enemyAnchor (multiplyScalar (throwDir p)
         (boomerangDistance (updateEnemyAndBoomerang dt p u s)))"
  by (simp add: updateEnemyAndBoomerang_def Let_def split: if_splits)

lemma resetPlayer_boomerang:
  "boomerangActive (resetPlayer s) = boomerangActive s"
  "boomerangOutward (resetPlayer s) = boomerangOutward s"
  "boomerangDistance (resetPlayer s) = boomerangDistance s"
  "boomerangCooldown (resetPlayer s) = boomerangCooldown s"
  "boomerangVisible (resetPlayer s) = boomerangVisible s"
  by (simp_all add: resetPlayer_def)

lemma launches_cong:
  "boomerangActive a = boomerangActive b \<Longrightarrow> boomerangCooldown a = boomerangCooldown b \<Longrightarrow>
   launches dt a = launches dt b"
  by (simp add: launches_def)

lemma flies_cong:
  "boomerangActive a = boomerangActive b \<Longrightarrow> boomerangCooldown a = boomerangCooldown b \<Longrightarrow>
   flies dt a = flies dt b"
  by (simp add: flies_def launches_def)

lemma nextDistance_cong:
  "boomerangActive a = boomerangActive b \<Longrightarrow> boomerangCooldown a = boomerangCooldown b \<Longrightarrow>
   boomerangDistance a = boomerangDistance b \<Longrightarrow> boomerangOutward a = boomerangOutward b \<Longrightarrow>
   nextDistance dt a = nextDistance dt b"
  by (simp add: nextDistance_def launches_def)

lemma goalPhase_unfold:
  "goalPhase dt s =
     (let pn = translation (playerRb s);
          s3 = updateEnemyAndBoomerang dt pn (vnormalize pn) (beforeUpdate s)
      in if \<not> isClear s3 \<and> distanceTo pn goalPos < CLEAR_RADIUS
         then s3\<lparr> isClear := True \<rparr> else s3)"
  by (simp add: goalPhase_def beforeUpdate_def Let_def)

lemma beforeUpdate_boomerang:
  "boomerangActive (beforeUpdate s) = boomerangActive s"
  "boomerangOutward (beforeUpdate s) = boomerangOutward s"
  "boomerangDistance (beforeUpdate s) = boomerangDistance s"
  "boomerangCooldown (beforeUpdate s) = boomerangCooldown s"
  "boomerangVisible (beforeUpdate s) = boomerangVisible s"
  by (simp_all add: beforeUpdate_def Let_def resetPlayer_boomerang)

lemma goalPhase_boomerang:
  "boomerangActive (goalPhase dt s) = (flies dt s \<and> 0 < nextDistance dt s)"
  "boomerangDistance (goalPhase dt s) = (if flies dt s then nextDistance dt s else boomerangDistance s)"
  "boomerangOutward (goalPhase dt s)
     = (if flies dt s
        then (launches dt s \<or> boomerangOutward s) \<and> nextDistance dt s < BOOMERANG_MAX_DIST
        else boomerangOutward s)"
  "boomerangCooldown (goalPhase dt s)
     = (if launches dt s then BOOMERANG_COOLDOWN else boomerangCooldown s - dt)"
  "boomerangVisible (goalPhase dt s)
     = (if flies dt s
        then (launches dt s \<or> boomerangVisible s) \<and> 0 < nextDistance dt s
        else boomerangVisible s)"
  by (simp_all add: goalPhase_unfold Let_def update_active update_distance update_outward
      update_cooldown update_visible beforeUpdate_boomerang
      launches_cong [OF beforeUpdate_boomerang(1) beforeUpdate_boomerang(4)]
      flies_cong [OF beforeUpdate_boomerang(1) beforeUpdate_boomerang(4)]
      nextDistance_cong [OF beforeUpdate_boomerang(1) beforeUpdate_boomerang(4)
        beforeUpdate_boomerang(3) beforeUpdate_boomerang(2)])

lemma goalPhase_position:
  "boomerangActive (goalPhase dt s) \<Longrightarrow>
   boomerangPosition (goalPhase dt s)
     = vadd enemyAnchor (multiplyScalar (throwDir (translation (playerRb s)))
         (boomerangDistance (goalPhase dt s)))"
  by (simp add: goalPhase_unfold Let_def update_position split: if_splits)

lemma preStep_boomerang:
  "boomerangActive (preStep w dt s) = boomerangActive s"
  "boomerangOutward (preStep w dt s) = boomerangOutward s"
  "boomerangDistance (preStep w dt s) = boomerangDistance s"
  "boomerangCooldown (preStep w dt s) = boomerangCooldown s"
  "boomerangVisible (preStep w dt s) = boomerangVisible s"
  by (simp_all add: preStep_def movePhase_def groundPhase_def jump_def Let_def)

lemma worldStep_boomerang:
  "boomerangActive (worldStep w s) = boomerangActive s"
  "boomerangOutward (worldStep w s) = boomerangOutward s"
  "boomerangDistance (worldStep w s) = boomerangDistance s"
  "boomerangCooldown (worldStep w s) = boomerangCooldown s"
  "boomerangVisible (worldStep w s) = boomerangVisible s"
  by (simp_all add: worldStep_def)

lemma physicsStep_boomerang:
  "boomerangActive (physicsStep w dt s) = (flies dt s \<and> 0 < nextDistance dt s)"
  "boomerangDistance (physicsStep w dt s) = (if flies dt s then nextDistance dt s else boomerangDistance s)"
  "boomerangOutward (physicsStep w dt s)
     = (if flies dt s
        then (launches dt s \<or> boomerangOutward s) \<and> nextDistance dt s < BOOMERANG_MAX_DIST
        else boomerangOutward s)"
  "boomerangCooldown (physicsStep w dt s)
     = (if launches dt s then BOOMERANG_COOLDOWN else boomerangCooldown s - dt)"
  "boomerangVisible (physicsStep w dt s)
     = (if flies dt s
        then (launches dt s \<or> boomerangVisible s) \<and> 0 < nextDistance dt s
        else boomerangVisible s)"
proof -
  let ?m = "worldStep w (preStep w dt s)"
  have a: "boomerangActive ?m = boomerangActive s" and c: "boomerangCooldown ?m = boomerangCooldown s"
    and d: "boomerangDistance ?m = boomerangDistance s" and o: "boomerangOutward ?m = boomerangOutward s"
    and v: "boomerangVisible ?m = boomerangVisible s"
    by (simp_all add: worldStep_boomerang preStep_boomerang)
  note k = launches_cong [OF a c] flies_cong [OF a c] nextDistance_cong [OF a c d o]
  show "boomerangActive (physicsStep w dt s) = (flies dt s \<and> 0 < nextDistance dt s)"
    by (simp add: physicsStep_def goalPhase_boomerang k)
  show "boomerangDistance (physicsStep w dt s) = (if flies dt s then nextDistance dt s else boomerangDistance s)"
    by (simp add: physicsStep_def goalPhase_boomerang k d)
  show "boomerangOutward (physicsStep w dt s)
     = (if flies dt s
        then (launches dt s \<or> boomerangOutward s) \<and> nextDistance dt s < BOOMERANG_MAX_DIST
        else boomerangOutward s)"
    by (simp add: physicsStep_def goalPhase_boomerang k o)
  show "boomerangCooldown (physicsStep w dt s)
     = (if launches dt s then BOOMERANG_COOLDOWN else boomerangCooldown s - dt)"
    by (simp add: physicsStep_def goalPhase_boomerang k c)
  show "boomerangVisible (physicsStep w dt s)
     = (if flies dt s
        then (launches dt s \<or> boomerangVisible s) \<and> 0 < nextDistance dt s
        else boomerangVisible s)"
    by (simp add: physicsStep_def goalPhase_boomerang k v)
qed

lemma nextDistance_bounds: "0 \<le> nextDistance dt s \<and> nextDistance dt s \<le> BOOMERANG_MAX_DIST"
  by (simp add: nextDistance_def clamp_def BOOMERANG_MAX_DIST_def)

lemma boomerangInv_physicsStep: "boomerangInv s \<Longrightarrow> boomerangInv (physicsStep w dt s)"
  using nextDistance_bounds [of dt s]
  by (auto simp add: boomerangInv_def physicsStep_boomerang flies_def)

lemma boomerangInv_event: "boomerangInv s \<Longrightarrow> boomerangInv (apply_event e s)"
proof (cases e)
  case (Tick w)
  assume "boomerangInv s"
  then show ?thesis by (simp add: Tick boomerangInv_physicsStep)
next
  case (KeyDown c)
  assume "boomerangInv s"
  then show ?thesis
    by (simp add: KeyDown boomerangInv_def keydown_def Let_def resetPlayer_def)
next
  case (KeyUp c)
  assume "boomerangInv s"
  then show ?thesis by (simp add: KeyUp boomerangInv_def keyup_def)
next
  case (MouseMove l x y)
  assume "boomerangInv s"
  then show ?thesis by (simp add: MouseMove boomerangInv_def mousemove_def)
qed

lemma boomerangInv_reachable: "reachable s \<Longrightarrow> boomerangInv s"
proof (induction rule: reachable.induct)
  case reachable_init
  show ?case by (simp add: boomerangInv_def initialGame_def BOOMERANG_MAX_DIST_def)
next
  case (reachable_event s e)
  then show ?case by (simp add: boomerangInv_event)
qed

lemma flight_step: "BOOMERANG_SPEED * fixedDt = 2 / 5"
  by (simp add: BOOMERANG_SPEED_def fixedDt_def)

lemma run_ticks: "run (map Tick ws) s = ticksWith fixedDt ws s"
  by (induction ws arbitrary: s) simp_all

lemma ticksWith_snoc: "ticksWith dt (ws @ [w]) s = physicsStep w dt (ticksWith dt ws s)"
  by (induction ws arbitrary: s) simp_all

lemma ticksWith_Suc:
  "k < length ws \<Longrightarrow>
   ticksWith dt (take (Suc k) ws) s = physicsStep (ws ! k) dt (ticksWith dt (take k ws) s)"
  by (simp add: take_Suc_conv_app_nth ticksWith_snoc)

lemma boomerangInv_update: "boomerangInv s \<Longrightarrow> boomerangInv (updateEnemyAndBoomerang dt p u s)"
  using nextDistance_bounds [of dt s]
  by (auto simp add: boomerangInv_def update_active update_distance update_visible flies_def)

lemma nextDistance_out:
  assumes "boomerangActive s" "boomerangOutward s" "0 \<le> boomerangDistance s" "0 < dt"
  shows "nextDistance dt s = min BOOMERANG_MAX_DIST (boomerangDistance s + BOOMERANG_SPEED * dt)"
proof -
  have l: "\<not> launches dt s" using assms(1) by (simp add: launches_def)
  have "0 \<le> BOOMERANG_SPEED * dt" using assms(4) by (simp add: BOOMERANG_SPEED_def)
  then show ?thesis
    using assms(3) by (simp add: nextDistance_def l assms(2) clamp_def BOOMERANG_MAX_DIST_def)
qed

lemma nextDistance_in:
  assumes "boomerangActive s" "\<not> boomerangOutward s" "boomerangDistance s \<le> BOOMERANG_MAX_DIST"
    "0 < dt"
  shows "nextDistance dt s = max 0 (boomerangDistance s - BOOMERANG_SPEED * dt)"
proof -
  have l: "\<not> launches dt s" using assms(1) by (simp add: launches_def)
  have "0 \<le> BOOMERANG_SPEED * dt" using assms(4) by (simp add: BOOMERANG_SPEED_def)
  then show ?thesis
    using assms(3) by (auto simp add: nextDistance_def l assms(2) clamp_def min_def max_def)
qed

lemma nextDistance_launch:
  assumes "launches dt s" "0 < dt"
  shows "nextDistance dt s = min BOOMERANG_MAX_DIST (BOOMERANG_SPEED * dt)"
proof -
  have "0 \<le> BOOMERANG_SPEED * dt" using assms(2) by (simp add: BOOMERANG_SPEED_def)
  then show ?thesis
    by (simp add: nextDistance_def assms(1) clamp_def BOOMERANG_MAX_DIST_def)
qed

lemma outward_leg:
  fixes m :: nat
  assumes "\<not> boomerangActive s0" "boomerangCooldown s0 - dt \<le> 0" "0 < dt"
    and lo: "real m * (BOOMERANG_SPEED * dt) < BOOMERANG_MAX_DIST"
    and hi: "BOOMERANG_MAX_DIST \<le> real (m + 1) * (BOOMERANG_SPEED * dt)"
    and len: "length ws = 2 * (m + 1)"
  shows "1 \<le> k \<Longrightarrow> k \<le> m + 1 \<Longrightarrow>
         boomerangActive (ticksWith dt (take k ws) s0)
       \<and> (boomerangOutward (ticksWith dt (take k ws) s0) \<longleftrightarrow> k < m + 1)
       \<and> boomerangDistance (ticksWith dt (take k ws) s0)
           = min BOOMERANG_MAX_DIST (real k * (BOOMERANG_SPEED * dt))"
proof (induction k)
  case 0
  then show ?case by simp
next
  case (Suc k)
  define q where "q = BOOMERANG_SPEED * dt"
  have q: "0 < q" using assms(3) by (simp add: q_def BOOMERANG_SPEED_def)
  let ?st = "ticksWith dt (take k ws) s0"
  have step: "ticksWith dt (take (Suc k) ws) s0 = physicsStep (ws ! k) dt ?st"
    using Suc.prems len by (intro ticksWith_Suc) simp
  have M: "0 < BOOMERANG_MAX_DIST" by (simp add: BOOMERANG_MAX_DIST_def)
  have edge: "(min BOOMERANG_MAX_DIST (real (Suc k) * q) < BOOMERANG_MAX_DIST) \<longleftrightarrow> Suc k < m + 1"
  proof
    assume "min BOOMERANG_MAX_DIST (real (Suc k) * q) < BOOMERANG_MAX_DIST"
    then have "real (Suc k) * q < real (m + 1) * q" using hi by (simp add: q_def)
    then have "real (Suc k) < real (m + 1)" using q by (simp add: mult_less_cancel_right)
    then show "Suc k < m + 1" by simp
  next
    assume "Suc k < m + 1"
    then have "real (Suc k) \<le> real m" by simp
    then have "real (Suc k) * q \<le> real m * q" using q by (intro mult_right_mono) simp_all
    then show "min BOOMERANG_MAX_DIST (real (Suc k) * q) < BOOMERANG_MAX_DIST"
      using lo by (simp add: q_def)
  qed
  have pos: "0 < min BOOMERANG_MAX_DIST (real (Suc k) * q)"
    using q M by (simp add: mult_pos_pos)
  show ?case
  proof (cases "k = 0")
    case True
    then have st: "?st = s0" by simp
    have l: "launches dt s0" using assms(1,2) by (simp add: launches_def)
    have n: "nextDistance dt s0 = min BOOMERANG_MAX_DIST (real (Suc k) * q)"
      using nextDistance_launch [OF l assms(3)] True by (simp add: q_def)
    show ?thesis
      unfolding step st q_def [symmetric]
      using edge pos l n by (simp add: physicsStep_boomerang flies_def)
  next
    case False
    then have k: "1 \<le> k" "k \<le> m + 1" "k < m + 1" using Suc.prems by simp_all
    from Suc.IH [OF k(1,2)] k(3)
    have ih: "boomerangActive ?st" "boomerangOutward ?st"
      "boomerangDistance ?st = min BOOMERANG_MAX_DIST (real k * q)"
      by (simp_all add: q_def)
    have "real k \<le> real m" using k(3) by simp
    then have "real k * q \<le> real m * q" using q by (intro mult_right_mono) simp_all
    then have d: "boomerangDistance ?st = real k * q" using lo ih(3) by (simp add: q_def)
    have d0: "0 \<le> boomerangDistance ?st" using d q by simp
    have l: "\<not> launches dt ?st" using ih(1) by (simp add: launches_def)
    have "real (Suc k) * q = real k * q + q" by (simp add: algebra_simps)
    then have n: "nextDistance dt ?st = min BOOMERANG_MAX_DIST (real (Suc k) * q)"
      using nextDistance_out [OF ih(1,2) d0 assms(3)] d by (simp add: q_def)
    show ?thesis
      unfolding step q_def [symmetric]
      using edge pos l n ih(1,2) by (simp add: physicsStep_boomerang flies_def)
  qed
qed

lemma inward_leg:
  fixes m :: nat
  assumes "\<not> boomerangActive s0" "boomerangCooldown s0 - dt \<le> 0" "0 < dt"
    and lo: "real m * (BOOMERANG_SPEED * dt) < BOOMERANG_MAX_DIST"
    and hi: "BOOMERANG_MAX_DIST \<le> real (m + 1) * (BOOMERANG_SPEED * dt)"
    and len: "length ws = 2 * (m + 1)"
  shows "j \<le> m + 1 \<Longrightarrow>
         (boomerangActive (ticksWith dt (take (m + 1 + j) ws) s0) \<longleftrightarrow> j < m + 1)
       \<and> \<not> boomerangOutward (ticksWith dt (take (m + 1 + j) ws) s0)
       \<and> boomerangDistance (ticksWith dt (take (m + 1 + j) ws) s0)
           = max 0 (BOOMERANG_MAX_DIST - real j * (BOOMERANG_SPEED * dt))
       \<and> (boomerangVisible (ticksWith dt (take (m + 1 + j) ws) s0) \<longrightarrow> j < m + 1)"
proof (induction j)
  case 0
  have M: "0 < BOOMERANG_MAX_DIST" by (simp add: BOOMERANG_MAX_DIST_def)
  have "min BOOMERANG_MAX_DIST (real (m + 1) * (BOOMERANG_SPEED * dt)) = BOOMERANG_MAX_DIST"
    using hi by simp
  then show ?case
    using outward_leg [OF assms, of "m + 1"] M by simp
next
  case (Suc j)
  define q where "q = BOOMERANG_SPEED * dt"
  have q: "0 < q" using assms(3) by (simp add: q_def BOOMERANG_SPEED_def)
  let ?st = "ticksWith dt (take (m + 1 + j) ws) s0"
  have "ticksWith dt (take (Suc (m + 1 + j)) ws) s0 = physicsStep (ws ! (m + 1 + j)) dt ?st"
    using Suc.prems len by (intro ticksWith_Suc) simp
  then have step: "ticksWith dt (take (m + 1 + Suc j) ws) s0
                     = physicsStep (ws ! (m + 1 + j)) dt ?st"
    by simp
  have j: "j \<le> m + 1" "j < m + 1" using Suc.prems by simp_all
  from Suc.IH [OF j(1)] j(2)
  have ih: "boomerangActive ?st" "\<not> boomerangOutward ?st"
    "boomerangDistance ?st = max 0 (BOOMERANG_MAX_DIST - real j * q)"
    by (simp_all add: q_def)
  have "real j \<le> real m" using j(2) by simp
  then have "real j * q \<le> real m * q" using q by (intro mult_right_mono) simp_all
  then have jq: "real j * q < BOOMERANG_MAX_DIST" using lo by (simp add: q_def)
  then have d: "boomerangDistance ?st = BOOMERANG_MAX_DIST - real j * q"
    using ih(3) by simp
  have "0 \<le> real j * q" using q by simp
  then have dM: "boomerangDistance ?st \<le> BOOMERANG_MAX_DIST" using d by simp
  have l: "\<not> launches dt ?st" using ih(1) by (simp add: launches_def)
  have e: "real (Suc j) * q = real j * q + q" by (simp add: algebra_simps)
  have n: "nextDistance dt ?st = max 0 (BOOMERANG_MAX_DIST - real (Suc j) * q)"
    using nextDistance_in [OF ih(1,2) dM assms(3)] d e by (simp add: q_def algebra_simps)
  have edge: "(0 < max 0 (BOOMERANG_MAX_DIST - real (Suc j) * q)) \<longleftrightarrow> Suc j < m + 1"
  proof
    assume "0 < max 0 (BOOMERANG_MAX_DIST - real (Suc j) * q)"
    then have "real (Suc j) * q < real (m + 1) * q" using hi by (simp add: q_def)
    then have "real (Suc j) < real (m + 1)" using q by (simp add: mult_less_cancel_right)
    then show "Suc j < m + 1" by simp
  next
    assume "Suc j < m + 1"
    then have "real (Suc j) \<le> real m" by simp
    then have "real (Suc j) * q \<le> real m * q" using q by (intro mult_right_mono) simp_all
    then show "0 < max 0 (BOOMERANG_MAX_DIST - real (Suc j) * q)"
      using lo by (simp add: q_def)
  qed
  have below: "max 0 (BOOMERANG_MAX_DIST - real (Suc j) * q) < BOOMERANG_MAX_DIST"
    using q by (simp add: BOOMERANG_MAX_DIST_def mult_pos_pos)
  show ?case
    unfolding step q_def [symmetric]
    using edge below l n ih(1,2) by (simp add: physicsStep_boomerang flies_def)
qed

text \<open>
  C4. Whatever the step \<open>dt\<close>, a call of the projectile update, and so a tick, keeps the
  projectile's invariant: the distance lies in \<open>[0, MAX_DIST]\<close>, the projectile is inactive
  exactly when the distance is 0, and it is shown exactly when it is active; so the
  invariant holds in every reachable state. A full cycle, for any positive step \<open>dt\<close>,
  with \<open>m + 1\<close> the number of steps of \<open>SPEED * dt\<close> that reach \<open>MAX_DIST\<close>: from a state
  about to launch, tick \<open>k\<close> of the first \<open>m + 1\<close> leaves the distance at
  \<open>min MAX_DIST (k * SPEED * dt)\<close>; tick \<open>m + 1\<close> reaches \<open>MAX_DIST\<close> and turns the projectile
  inbound in that same tick; tick \<open>j\<close> of the next \<open>m + 1\<close> leaves the distance at
  \<open>max 0 (MAX_DIST - j * SPEED * dt)\<close>; and the last one leaves it at exactly 0, with the
  projectile inactive and hidden.
\<close>

theorem projectile_distance_cycle:
  "(boomerangInv s \<longrightarrow>
      boomerangInv (updateEnemyAndBoomerang dt p u s)
      \<and> 0 \<le> boomerangDistance (physicsStep w dt s)
      \<and> boomerangDistance (physicsStep w dt s) \<le> BOOMERANG_MAX_DIST
      \<and> (\<not> boomerangActive (physicsStep w dt s) \<longleftrightarrow> boomerangDistance (physicsStep w dt s) = 0)
      \<and> (boomerangVisible (physicsStep w dt s) \<longleftrightarrow> boomerangActive (physicsStep w dt s)))
   \<and> (reachable s \<longrightarrow>
      0 \<le> boomerangDistance s \<and> boomerangDistance s \<le> BOOMERANG_MAX_DIST
      \<and> (\<not> boomerangActive s \<longleftrightarrow> boomerangDistance s = 0)
      \<and> (boomerangVisible s \<longleftrightarrow> boomerangActive s))
   \<and> (\<not> boomerangActive s0 \<and> boomerangCooldown s0 - dt' \<le> 0 \<and> 0 < dt'
        \<and> real m * (BOOMERANG_SPEED * dt') < BOOMERANG_MAX_DIST
        \<and> BOOMERANG_MAX_DIST \<le> real (m + 1) * (BOOMERANG_SPEED * dt')
        \<and> length ws = 2 * (m + 1) \<longrightarrow>
        (\<forall>k. 1 \<le> k \<and> k \<le> m + 1 \<longrightarrow>
           boomerangActive (ticksWith dt' (take k ws) s0)
         \<and> (boomerangOutward (ticksWith dt' (take k ws) s0) \<longleftrightarrow> k < m + 1)
         \<and> boomerangDistance (ticksWith dt' (take k ws) s0)
             = min BOOMERANG_MAX_DIST (real k * (BOOMERANG_SPEED * dt')))
      \<and> (\<forall>j. j \<le> m + 1 \<longrightarrow>
           (boomerangActive (ticksWith dt' (take (m + 1 + j) ws) s0) \<longleftrightarrow> j < m + 1)
         \<and> \<not> boomerangOutward (ticksWith dt' (take (m + 1 + j) ws) s0)
         \<and> boomerangDistance (ticksWith dt' (take (m + 1 + j) ws) s0)
             = max 0 (BOOMERANG_MAX_DIST - real j * (BOOMERANG_SPEED * dt')))
      \<and> boomerangDistance (ticksWith dt' ws s0) = 0
      \<and> \<not> boomerangActive (ticksWith dt' ws s0)
      \<and> \<not> boomerangVisible (ticksWith dt' ws s0))"
proof (intro conjI impI allI)
  assume i: "boomerangInv s"
  show "boomerangInv (updateEnemyAndBoomerang dt p u s)"
    using i by (rule boomerangInv_update)
  from boomerangInv_physicsStep [OF i, of w dt]
  show "0 \<le> boomerangDistance (physicsStep w dt s)"
    "boomerangDistance (physicsStep w dt s) \<le> BOOMERANG_MAX_DIST"
    "(\<not> boomerangActive (physicsStep w dt s)) = (boomerangDistance (physicsStep w dt s) = 0)"
    "boomerangVisible (physicsStep w dt s) = boomerangActive (physicsStep w dt s)"
    by (simp_all add: boomerangInv_def)
next
  assume r: "reachable s"
  from boomerangInv_reachable [OF r]
  show "0 \<le> boomerangDistance s" "boomerangDistance s \<le> BOOMERANG_MAX_DIST"
    "(\<not> boomerangActive s) = (boomerangDistance s = 0)"
    "boomerangVisible s = boomerangActive s"
    by (simp_all add: boomerangInv_def)
next
  fix k :: nat
  assume a: "\<not> boomerangActive s0 \<and> boomerangCooldown s0 - dt' \<le> 0 \<and> 0 < dt'
        \<and> real m * (BOOMERANG_SPEED * dt') < BOOMERANG_MAX_DIST
        \<and> BOOMERANG_MAX_DIST \<le> real (m + 1) * (BOOMERANG_SPEED * dt')
        \<and> length ws = 2 * (m + 1)"
    and k: "1 \<le> k \<and> k \<le> m + 1"
  from a k outward_leg [of s0 dt' m ws k]
  show "boomerangActive (ticksWith dt' (take k ws) s0)"
    "boomerangOutward (ticksWith dt' (take k ws) s0) = (k < m + 1)"
    "boomerangDistance (ticksWith dt' (take k ws) s0)
       = min BOOMERANG_MAX_DIST (real k * (BOOMERANG_SPEED * dt'))"
    by blast+
next
  fix j :: nat
  assume a: "\<not> boomerangActive s0 \<and> boomerangCooldown s0 - dt' \<le> 0 \<and> 0 < dt'
        \<and> real m * (BOOMERANG_SPEED * dt') < BOOMERANG_MAX_DIST
        \<and> BOOMERANG_MAX_DIST \<le> real (m + 1) * (BOOMERANG_SPEED * dt')
        \<and> length ws = 2 * (m + 1)"
    and j: "j \<le> m + 1"
  from a j inward_leg [of s0 dt' m ws j]
  show "boomerangActive (ticksWith dt' (take (m + 1 + j) ws) s0) = (j < m + 1)"
    "\<not> boomerangOutward (ticksWith dt' (take (m + 1 + j) ws) s0)"
    "boomerangDistance (ticksWith dt' (take (m + 1 + j) ws) s0)
       = max 0 (BOOMERANG_MAX_DIST - real j * (BOOMERANG_SPEED * dt'))"
    by blast+
next
  assume a: "\<not> boomerangActive s0 \<and> boomerangCooldown s0 - dt' \<le> 0 \<and> 0 < dt'
        \<and> real m * (BOOMERANG_SPEED * dt') < BOOMERANG_MAX_DIST
        \<and> BOOMERANG_MAX_DIST \<le> real (m + 1) * (BOOMERANG_SPEED * dt')
        \<and> length ws = 2 * (m + 1)"
  then have t: "take (m + 1 + (m + 1)) ws = ws" by simp
  have z: "max 0 (BOOMERANG_MAX_DIST - real (m + 1) * (BOOMERANG_SPEED * dt')) = 0"
    using a by simp
  from a inward_leg [of s0 dt' m ws "m + 1"]
  have "(boomerangActive (ticksWith dt' ws s0) \<longleftrightarrow> m + 1 < m + 1)
       \<and> boomerangDistance (ticksWith dt' ws s0)
           = max 0 (BOOMERANG_MAX_DIST - real (m + 1) * (BOOMERANG_SPEED * dt'))
       \<and> (boomerangVisible (ticksWith dt' ws s0) \<longrightarrow> m + 1 < m + 1)"
    unfolding t by blast
  then show "boomerangDistance (ticksWith dt' ws s0) = 0"
    "\<not> boomerangActive (ticksWith dt' ws s0)"
    "\<not> boomerangVisible (ticksWith dt' ws s0)"
    unfolding z by simp_all
qed

theorem projectile_distance_cycle_witness:
  "boomerangInv midFlight
   \<and> boomerangDistance (physicsStep (stillWorld False) 1 midFlight) \<le> BOOMERANG_MAX_DIST
   \<and> boomerangDistance (physicsStep (stillWorld False) 1 midFlight) = 16
   \<and> reachable (apply_event (Tick (stillWorld True)) initialGame)
   \<and> 0 \<le> boomerangDistance (apply_event (Tick (stillWorld True)) initialGame)
   \<and> boomerangDistance (apply_event (Tick (stillWorld True)) initialGame) \<le> BOOMERANG_MAX_DIST
   \<and> \<not> boomerangActive readyToLaunch
   \<and> boomerangCooldown readyToLaunch - fixedDt \<le> 0 \<and> 0 < fixedDt
   \<and> real 39 * (BOOMERANG_SPEED * fixedDt) < BOOMERANG_MAX_DIST
   \<and> BOOMERANG_MAX_DIST \<le> real (39 + 1) * (BOOMERANG_SPEED * fixedDt)
   \<and> length (replicate 80 (stillWorld False)) = 2 * (39 + 1)
   \<and> boomerangDistance
        (ticksWith fixedDt (take 40 (replicate 80 (stillWorld False))) readyToLaunch) = 16
   \<and> \<not> boomerangOutward
        (ticksWith fixedDt (take 40 (replicate 80 (stillWorld False))) readyToLaunch)
   \<and> boomerangDistance (run (map Tick (replicate 80 (stillWorld False))) readyToLaunch) = 0
   \<and> \<not> boomerangActive (run (map Tick (replicate 80 (stillWorld False))) readyToLaunch)
   \<and> \<not> boomerangVisible (run (map Tick (replicate 80 (stillWorld False))) readyToLaunch)
   \<and> boomerangCooldown readyToLaunch - 1 / 50 \<le> 0
   \<and> real 33 * (BOOMERANG_SPEED * (1 / 50)) < BOOMERANG_MAX_DIST
   \<and> BOOMERANG_MAX_DIST \<le> real (33 + 1) * (BOOMERANG_SPEED * (1 / 50))
   \<and> boomerangDistance
        (ticksWith (1 / 50) (take 33 (replicate 68 (stillWorld False))) readyToLaunch) = 396 / 25
   \<and> boomerangDistance
        (ticksWith (1 / 50) (take 34 (replicate 68 (stillWorld False))) readyToLaunch) = 16
   \<and> boomerangDistance
        (ticksWith (1 / 50) (take 67 (replicate 68 (stillWorld False))) readyToLaunch) = 4 / 25
   \<and> boomerangDistance (ticksWith (1 / 50) (replicate 68 (stillWorld False)) readyToLaunch) = 0
   \<and> \<not> boomerangActive (ticksWith (1 / 50) (replicate 68 (stillWorld False)) readyToLaunch)"
proof -
  have i: "boomerangInv midFlight"
    by (simp add: boomerangInv_def midFlight_def initialGame_def BOOMERANG_MAX_DIST_def)
  have i1: "boomerangDistance (physicsStep (stillWorld False) 1 midFlight) \<le> BOOMERANG_MAX_DIST"
    using projectile_distance_cycle [where s = midFlight and w = "stillWorld False" and dt = 1] i
    by blast
  have i2: "boomerangDistance (physicsStep (stillWorld False) 1 midFlight) = 16"
    by (simp add: physicsStep_boomerang flies_def nextDistance_def launches_def clamp_def
        midFlight_def initialGame_def BOOMERANG_SPEED_def BOOMERANG_MAX_DIST_def)
  have r: "reachable (apply_event (Tick (stillWorld True)) initialGame)"
    by (intro reachable_event reachable_init)
  have r1: "0 \<le> boomerangDistance (apply_event (Tick (stillWorld True)) initialGame)"
    "boomerangDistance (apply_event (Tick (stillWorld True)) initialGame) \<le> BOOMERANG_MAX_DIST"
    using projectile_distance_cycle [where s = "apply_event (Tick (stillWorld True)) initialGame"] r
    by blast+
  have a: "\<not> boomerangActive readyToLaunch \<and> boomerangCooldown readyToLaunch - fixedDt \<le> 0
     \<and> 0 < fixedDt
     \<and> real 39 * (BOOMERANG_SPEED * fixedDt) < BOOMERANG_MAX_DIST
     \<and> BOOMERANG_MAX_DIST \<le> real (39 + 1) * (BOOMERANG_SPEED * fixedDt)
     \<and> length (replicate 80 (stillWorld False)) = 2 * (39 + 1)"
    by (simp add: readyToLaunch_def initialGame_def fixedDt_def BOOMERANG_SPEED_def
        BOOMERANG_MAX_DIST_def)
  note c = projectile_distance_cycle [where ?s0.0 = readyToLaunch and dt' = fixedDt and m = 39
      and ws = "replicate 80 (stillWorld False)"]
  from c a have c1:
    "\<forall>k. 1 \<le> k \<and> k \<le> 39 + 1 \<longrightarrow>
       boomerangActive (ticksWith fixedDt (take k (replicate 80 (stillWorld False))) readyToLaunch)
     \<and> (boomerangOutward
           (ticksWith fixedDt (take k (replicate 80 (stillWorld False))) readyToLaunch)
          \<longleftrightarrow> k < 39 + 1)
     \<and> boomerangDistance
           (ticksWith fixedDt (take k (replicate 80 (stillWorld False))) readyToLaunch)
          = min BOOMERANG_MAX_DIST (real k * (BOOMERANG_SPEED * fixedDt))"
    by blast
  from c1 [rule_format, of 40] have c2:
    "boomerangDistance
       (ticksWith fixedDt (take 40 (replicate 80 (stillWorld False))) readyToLaunch) = 16"
    "\<not> boomerangOutward
       (ticksWith fixedDt (take 40 (replicate 80 (stillWorld False))) readyToLaunch)"
    by (simp_all add: flight_step BOOMERANG_MAX_DIST_def)
  from c a have c3:
    "boomerangDistance (run (map Tick (replicate 80 (stillWorld False))) readyToLaunch) = 0"
    "\<not> boomerangActive (run (map Tick (replicate 80 (stillWorld False))) readyToLaunch)"
    "\<not> boomerangVisible (run (map Tick (replicate 80 (stillWorld False))) readyToLaunch)"
    unfolding run_ticks by blast+
  have b: "\<not> boomerangActive readyToLaunch \<and> boomerangCooldown readyToLaunch - 1 / 50 \<le> 0
     \<and> (0::real) < 1 / 50
     \<and> real 33 * (BOOMERANG_SPEED * (1 / 50)) < BOOMERANG_MAX_DIST
     \<and> BOOMERANG_MAX_DIST \<le> real (33 + 1) * (BOOMERANG_SPEED * (1 / 50))
     \<and> length (replicate 68 (stillWorld False)) = 2 * (33 + 1)"
    by (simp add: readyToLaunch_def initialGame_def BOOMERANG_SPEED_def BOOMERANG_MAX_DIST_def)
  note e = projectile_distance_cycle [where ?s0.0 = readyToLaunch and dt' = "1 / 50" and m = 33
      and ws = "replicate 68 (stillWorld False)"]
  from e b have e1:
    "\<forall>k. 1 \<le> k \<and> k \<le> 33 + 1 \<longrightarrow>
       boomerangActive (ticksWith (1 / 50) (take k (replicate 68 (stillWorld False))) readyToLaunch)
     \<and> (boomerangOutward
           (ticksWith (1 / 50) (take k (replicate 68 (stillWorld False))) readyToLaunch)
          \<longleftrightarrow> k < 33 + 1)
     \<and> boomerangDistance
           (ticksWith (1 / 50) (take k (replicate 68 (stillWorld False))) readyToLaunch)
          = min BOOMERANG_MAX_DIST (real k * (BOOMERANG_SPEED * (1 / 50)))"
    by blast
  from e b have e2:
    "\<forall>j. j \<le> 33 + 1 \<longrightarrow>
       (boomerangActive
          (ticksWith (1 / 50) (take (33 + 1 + j) (replicate 68 (stillWorld False))) readyToLaunch)
          \<longleftrightarrow> j < 33 + 1)
     \<and> \<not> boomerangOutward
          (ticksWith (1 / 50) (take (33 + 1 + j) (replicate 68 (stillWorld False))) readyToLaunch)
     \<and> boomerangDistance
          (ticksWith (1 / 50) (take (33 + 1 + j) (replicate 68 (stillWorld False))) readyToLaunch)
          = max 0 (BOOMERANG_MAX_DIST - real j * (BOOMERANG_SPEED * (1 / 50)))"
    by blast
  from e1 [rule_format, of 33] have e3:
    "boomerangDistance
        (ticksWith (1 / 50) (take 33 (replicate 68 (stillWorld False))) readyToLaunch) = 396 / 25"
    by (simp add: BOOMERANG_SPEED_def BOOMERANG_MAX_DIST_def)
  from e1 [rule_format, of 34] have e4:
    "boomerangDistance
        (ticksWith (1 / 50) (take 34 (replicate 68 (stillWorld False))) readyToLaunch) = 16"
    by (simp add: BOOMERANG_SPEED_def BOOMERANG_MAX_DIST_def)
  from e2 [rule_format, of 33] have e5:
    "boomerangDistance
        (ticksWith (1 / 50) (take 67 (replicate 68 (stillWorld False))) readyToLaunch) = 4 / 25"
    by (simp add: BOOMERANG_SPEED_def BOOMERANG_MAX_DIST_def)
  from e b have e6:
    "boomerangDistance (ticksWith (1 / 50) (replicate 68 (stillWorld False)) readyToLaunch) = 0"
    "\<not> boomerangActive (ticksWith (1 / 50) (replicate 68 (stillWorld False)) readyToLaunch)"
    by blast+
  from i i1 i2 r r1 a c2 c3 b e3 e4 e5 e6 show ?thesis by blast
qed

text \<open>
  C5, as the claim states it, fails: a tick with the projectile in flight takes \<open>dt\<close> off
  the cooldown all the same.
\<close>

theorem cooldown_only_while_inactive_counterexample:
  "boomerangActive midFlight
   \<and> boomerangActive (updateEnemyAndBoomerang fixedDt spawnPoint (Vec3 0 1 0) midFlight)
   \<and> boomerangCooldown (updateEnemyAndBoomerang fixedDt spawnPoint (Vec3 0 1 0) midFlight)
       = boomerangCooldown midFlight - fixedDt
   \<and> boomerangCooldown (updateEnemyAndBoomerang fixedDt spawnPoint (Vec3 0 1 0) midFlight)
       \<noteq> boomerangCooldown midFlight"
  by (simp add: update_cooldown update_active launches_def flies_def nextDistance_def clamp_def
      midFlight_def initialGame_def fixedDt_def BOOMERANG_SPEED_def BOOMERANG_MAX_DIST_def)

text \<open>
  C5, amended. The cooldown loses \<open>dt\<close> in every tick, in flight or not, unless the tick
  launches; a tick launches when the projectile is inactive and the cooldown, after the
  subtraction, is at most 0; the launch sets the cooldown to its constant and restarts the
  distance at 0, and the same tick already moves the projectile outward by \<open>SPEED * dt\<close>.
\<close>

theorem cooldown_counts_every_tick:
  "boomerangCooldown (updateEnemyAndBoomerang dt p u s)
     = (if \<not> boomerangActive s \<and> boomerangCooldown s - dt \<le> 0 then BOOMERANG_COOLDOWN
        else boomerangCooldown s - dt)
   \<and> (\<not> boomerangActive s \<and> boomerangCooldown s - dt \<le> 0
        \<and> 0 < dt \<and> BOOMERANG_SPEED * dt < BOOMERANG_MAX_DIST \<longrightarrow>
          boomerangActive (updateEnemyAndBoomerang dt p u s)
        \<and> boomerangOutward (updateEnemyAndBoomerang dt p u s)
        \<and> boomerangVisible (updateEnemyAndBoomerang dt p u s)
        \<and> boomerangDistance (updateEnemyAndBoomerang dt p u s) = BOOMERANG_SPEED * dt)"
  by (auto simp add: update_cooldown update_active update_outward update_visible update_distance
      launches_def flies_def nextDistance_def clamp_def BOOMERANG_SPEED_def BOOMERANG_MAX_DIST_def)

theorem cooldown_counts_every_tick_witness:
  "\<not> boomerangActive readyToLaunch \<and> boomerangCooldown readyToLaunch - fixedDt \<le> 0
   \<and> 0 < fixedDt \<and> BOOMERANG_SPEED * fixedDt < BOOMERANG_MAX_DIST
   \<and> boomerangCooldown (updateEnemyAndBoomerang fixedDt spawnPoint (Vec3 0 1 0) readyToLaunch) = 2
   \<and> boomerangActive (updateEnemyAndBoomerang fixedDt spawnPoint (Vec3 0 1 0) readyToLaunch)
   \<and> boomerangOutward (updateEnemyAndBoomerang fixedDt spawnPoint (Vec3 0 1 0) readyToLaunch)
   \<and> boomerangDistance (updateEnemyAndBoomerang fixedDt spawnPoint (Vec3 0 1 0) readyToLaunch)
       = 2 / 5"
proof -
  have h: "\<not> boomerangActive readyToLaunch \<and> boomerangCooldown readyToLaunch - fixedDt \<le> 0
           \<and> 0 < fixedDt \<and> BOOMERANG_SPEED * fixedDt < BOOMERANG_MAX_DIST"
    by (simp add: readyToLaunch_def initialGame_def fixedDt_def BOOMERANG_SPEED_def
        BOOMERANG_MAX_DIST_def)
  show ?thesis
    using cooldown_counts_every_tick [of fixedDt spawnPoint "Vec3 0 1 0" readyToLaunch] h
    by (simp add: BOOMERANG_COOLDOWN_def flight_step)
qed

section \<open>The goal\<close>

lemma goalPhase_isClear:
  "isClear (goalPhase dt s)
     = ((isClear s \<and> \<not> escaped (translation (playerRb s)))
        \<or> distanceTo (translation (playerRb s)) goalPos < CLEAR_RADIUS)"
  by (auto simp add: goalPhase_def Let_def update_keeps resetPlayer_def)

lemma preStep_isClear: "isClear (preStep w dt s) = isClear s"
  by (simp add: preStep_def movePhase_def jump_def Let_def)

lemma physicsStep_isClear:
  "isClear (physicsStep w dt s)
     = ((isClear s \<and> \<not> escaped (translation (step w (playerRb (preStep w dt s)))))
        \<or> distanceTo (translation (step w (playerRb (preStep w dt s)))) goalPos < CLEAR_RADIUS)"
  by (simp add: physicsStep_def goalPhase_isClear worldStep_def preStep_isClear)

lemma event_keeps_isClear: "isClear s \<Longrightarrow> \<not> resets e s \<Longrightarrow> isClear (apply_event e s)"
  by (cases e) (simp_all add: physicsStep_isClear keydown_def keyup_def mousemove_def Let_def)

lemma run_keeps_isClear: "isClear s \<Longrightarrow> noReset es s \<Longrightarrow> isClear (run es s)"
  by (induction es arbitrary: s) (simp_all add: event_keeps_isClear)

text \<open>
  C8. A tick whose step leaves the player closer than \<open>CLEAR_RADIUS\<close> to the goal ends
  with the cleared flag set; and from a state with the flag set, any run of ticks and page
  events that contains no reset (no press of R, no tick that ends out of bounds) ends with
  the flag still set, wherever the player goes.
\<close>

theorem cleared_latches:
  "(distanceTo (translation (step w (playerRb (preStep w dt s)))) goalPos < CLEAR_RADIUS
      \<longrightarrow> isClear (physicsStep w dt s))
   \<and> (isClear s' \<and> noReset es s' \<longrightarrow> isClear (run es s'))"
  by (simp add: physicsStep_isClear run_keeps_isClear)

lemma distanceTo_self: "distanceTo a a = 0"
  by (simp add: distanceTo_def vsub_def lengthSq_def)

lemma not_escaped_spawnPoint: "\<not> escaped spawnPoint"
  by (simp add: escaped_def spawnPoint_def vlength_axis_y PLANET_RADIUS_def ESCAPE_MARGIN_def)

theorem cleared_latches_witness:
  "distanceTo (translation (step goalWorld (playerRb (preStep goalWorld fixedDt initialGame))))
      goalPos < CLEAR_RADIUS
   \<and> \<not> isClear initialGame
   \<and> isClear (physicsStep goalWorld fixedDt initialGame)
   \<and> noReset [Tick homeWorld, KeyDown ''Space'', Tick homeWorld, KeyUp ''Space'']
        (physicsStep goalWorld fixedDt initialGame)
   \<and> isClear (run [Tick homeWorld, KeyDown ''Space'', Tick homeWorld, KeyUp ''Space'']
        (physicsStep goalWorld fixedDt initialGame))"
proof -
  let ?s1 = "physicsStep goalWorld fixedDt initialGame"
  let ?es = "[Tick homeWorld, KeyDown ''Space'', Tick homeWorld, KeyUp ''Space'']"
  have near: "distanceTo (translation (step goalWorld (playerRb (preStep goalWorld fixedDt initialGame))))
      goalPos < CLEAR_RADIUS"
    by (simp add: goalWorld_def distanceTo_self CLEAR_RADIUS_def)
  have c1: "isClear ?s1"
    using cleared_latches [of goalWorld fixedDt initialGame] near by blast
  have home: "\<And>s. \<not> escaped (translation (step homeWorld (playerRb s)))"
    by (simp add: homeWorld_def not_escaped_spawnPoint)
  have nr: "noReset ?es ?s1"
    by (simp add: home)
  have c2: "isClear (run ?es ?s1)"
    using cleared_latches [of _ _ _ ?s1 ?es] c1 nr by blast
  have i: "\<not> isClear initialGame" by (simp add: initialGame_def)
  from near i c1 nr c2 show ?thesis by blast
qed

section \<open>The escape tick and the projectile\<close>

lemma physicsStep_position:
  "boomerangActive (physicsStep w dt s) \<Longrightarrow>
   boomerangPosition (physicsStep w dt s)
     = vadd enemyAnchor (multiplyScalar
         (throwDir (translation (step w (playerRb (preStep w dt s)))))
         (boomerangDistance (physicsStep w dt s)))"
  unfolding physicsStep_def
  using goalPhase_position [of dt "worldStep w (preStep w dt s)"]
  by (simp add: worldStep_playerRb)

lemma escape_tick_end:
  assumes "escaped (translation (step w (playerRb (preStep w dt s))))"
  shows "translation (playerRb (physicsStep w dt s)) = spawnPoint"
    and "linvel (playerRb (physicsStep w dt s)) = Vec3 0 0 0"
    and "\<not> isClear (physicsStep w dt s)"
proof -
  have e: "escaped (translation (playerRb (worldStep w (preStep w dt s))))"
    using assms by (simp add: worldStep_playerRb)
  show "translation (playerRb (physicsStep w dt s)) = spawnPoint"
    and "linvel (playerRb (physicsStep w dt s)) = Vec3 0 0 0"
    and "\<not> isClear (physicsStep w dt s)"
    unfolding physicsStep_def using goalPhase_escaped [OF e, of dt] by simp_all
qed

text \<open>
  C10, as the claim states it, fails: no tick in which the escape reset fires ends with
  the player at the spawn point and a velocity other than zero.
\<close>

theorem escape_tick_knockback_counterexample:
  "\<not> (\<exists>w dt s. escaped (translation (step w (playerRb (preStep w dt s))))
        \<and> translation (playerRb (physicsStep w dt s)) = spawnPoint
        \<and> linvel (playerRb (physicsStep w dt s)) \<noteq> Vec3 0 0 0)"
  using escape_tick_end(2) by blast

text \<open>
  C10, amended. In a tick where the escape reset fires, the projectile update and the
  goal check that follow are evaluated against the position sampled before the reset: a
  projectile still in flight after the tick stands on the line from the anchor towards
  that position. That position is farther than \<open>R + ESCAPE_MARGIN\<close> from the centre, out
  of the projectile's and the goal's range, so the tick ends with the player at the spawn
  point, with zero velocity and not cleared.
\<close>

theorem escape_tick_uses_stale_position:
  assumes "escaped (translation (step w (playerRb (preStep w dt s))))"
  shows "(boomerangActive (physicsStep w dt s) \<longrightarrow>
            boomerangPosition (physicsStep w dt s)
              = vadd enemyAnchor (multiplyScalar
                  (throwDir (translation (step w (playerRb (preStep w dt s)))))
                  (boomerangDistance (physicsStep w dt s))))
       \<and> translation (playerRb (physicsStep w dt s)) = spawnPoint
       \<and> linvel (playerRb (physicsStep w dt s)) = Vec3 0 0 0
       \<and> \<not> isClear (physicsStep w dt s)"
  using escape_tick_end [OF assms] physicsStep_position [of w dt s] by simp

theorem escape_tick_uses_stale_position_witness:
  "escaped (translation (step flungWorld (playerRb (preStep flungWorld fixedDt midFlight))))
   \<and> boomerangActive (physicsStep flungWorld fixedDt midFlight)
   \<and> boomerangPosition (physicsStep flungWorld fixedDt midFlight)
       = vadd enemyAnchor (multiplyScalar (throwDir (Vec3 0 200 0)) (42 / 5))
   \<and> translation (playerRb (physicsStep flungWorld fixedDt midFlight)) = spawnPoint
   \<and> linvel (playerRb (physicsStep flungWorld fixedDt midFlight)) = Vec3 0 0 0"
proof -
  have t: "translation (step flungWorld (playerRb (preStep flungWorld fixedDt midFlight)))
             = Vec3 0 200 0"
    by (simp add: flungWorld_def)
  have h: "escaped (translation (step flungWorld (playerRb (preStep flungWorld fixedDt midFlight))))"
    unfolding t by (simp add: escaped_def vlength_axis_y PLANET_RADIUS_def ESCAPE_MARGIN_def)
  have n: "nextDistance fixedDt midFlight = 42 / 5"
    by (simp add: nextDistance_def launches_def midFlight_def initialGame_def clamp_def
        flight_step BOOMERANG_MAX_DIST_def)
  have f: "flies fixedDt midFlight"
    by (simp add: flies_def midFlight_def)
  have a: "boomerangActive (physicsStep flungWorld fixedDt midFlight)"
    by (simp add: physicsStep_boomerang f n)
  have d: "boomerangDistance (physicsStep flungWorld fixedDt midFlight) = 42 / 5"
    by (simp add: physicsStep_boomerang f n)
  show ?thesis
    using escape_tick_uses_stale_position [OF h] h a by (simp add: t d)
qed

section \<open>Jumping\<close>


lemma groundPhase_jumpComboIndex:
  "jumpComboIndex (groundPhase w dt s)
     = (if jsnum_gt (comboTimer (groundPhase w dt s)) JUMP_COMBO_WINDOW then 0
        else jumpComboIndex s)"
  by (simp add: groundPhase_def Let_def)

lemma groundPhase_jumpBufferTimer:
  "jumpBufferTimer (groundPhase w dt s)
     = (if jumpBufferTimer s > 0 then jumpBufferTimer s - dt else jumpBufferTimer s)"
  by (simp add: groundPhase_def Let_def)

lemma groundPhase_wasGrounded: "wasGrounded (groundPhase w dt s) = wasGrounded s"
  by (simp add: groundPhase_def Let_def)

lemma movePhase_fields:
  "jumpComboIndex (movePhase w dt g)
     = (if jumpFires g
        then (let i = (if jsnum_gt (comboTimer g) JUMP_COMBO_WINDOW then 0 else jumpComboIndex g)
              in if i \<ge> 2 then 0 else i + 1)
        else jumpComboIndex g)"
  "jumpBufferTimer (movePhase w dt g) = (if jumpFires g then 0 else jumpBufferTimer g)"
  "comboTimer (movePhase w dt g) = (if jumpFires g then PosInf else comboTimer g)"
  "grounded (movePhase w dt g) = (grounded g \<and> \<not> jumpFires g)"
  "isClear (movePhase w dt g) = isClear g"
  "translation (playerRb (movePhase w dt g)) = translation (playerRb g)"
  by (simp_all add: movePhase_def jump_def jumpFires_def Let_def JUMP_IMPULSES_def
      applyImpulse_def setLinvel_def)

lemma preStep_jumpComboIndex:
  "jumpComboIndex (preStep w dt s)
     = (if jumpFires (groundPhase w dt s)
        then (if jumpComboIndex (groundPhase w dt s) \<ge> 2 then 0
              else jumpComboIndex (groundPhase w dt s) + 1)
        else jumpComboIndex (groundPhase w dt s))"
  using groundPhase_combo_reset [of w dt s]
  by (auto simp add: preStep_def movePhase_fields Let_def)

lemma preStep_linvel:
  "linvel (playerRb (preStep w dt s))
     = (if jumpFires (groundPhase w dt s)
        then vadd (committedVelocity dt (groundPhase w dt s))
               (multiplyScalar (multiplyScalar (upOf s)
                  (JUMP_IMPULSES ! jumpComboIndex (groundPhase w dt s))) (invMass w))
        else committedVelocity dt (groundPhase w dt s))"
  using groundPhase_combo_reset [of w dt s]
  by (auto simp add: preStep_def movePhase_linvel)

lemma preStep_translation: "translation (playerRb (preStep w dt s)) = translation (playerRb s)"
  by (simp add: preStep_def movePhase_fields)

text \<open>The fields of the whole tick, by whether the step ended out of bounds.\<close>

lemma goalPhase_fields:
  "jumpComboIndex (goalPhase dt s)
     = (if escaped (translation (playerRb s)) then 0 else jumpComboIndex s)"
  "jumpBufferTimer (goalPhase dt s)
     = (if escaped (translation (playerRb s)) then 0 else jumpBufferTimer s)"
  "comboTimer (goalPhase dt s)
     = (if escaped (translation (playerRb s)) then PosInf else comboTimer s)"
  "wasGrounded (goalPhase dt s) = grounded s"
  "grounded (goalPhase dt s) = grounded s"
  "input (goalPhase dt s) = input s"
  by (simp_all add: goalPhase_def Let_def update_keeps resetPlayer_def)

lemma physicsStep_fields:
  "jumpComboIndex (physicsStep w dt s)
     = (if escaped (translation (step w (playerRb (preStep w dt s)))) then 0
        else jumpComboIndex (preStep w dt s))"
  "jumpBufferTimer (physicsStep w dt s)
     = (if escaped (translation (step w (playerRb (preStep w dt s)))) then 0
        else jumpBufferTimer (preStep w dt s))"
  "comboTimer (physicsStep w dt s)
     = (if escaped (translation (step w (playerRb (preStep w dt s)))) then PosInf
        else comboTimer (preStep w dt s))"
  "wasGrounded (physicsStep w dt s) = grounded (preStep w dt s)"
  "grounded (physicsStep w dt s) = grounded (preStep w dt s)"
  by (simp_all add: physicsStep_def goalPhase_fields worldStep_def)

lemma physicsStep_translation:
  "translation (playerRb (physicsStep w dt s))
     = (if escaped (translation (step w (playerRb (preStep w dt s)))) then spawnPoint
        else translation (step w (playerRb (preStep w dt s))))"
  by (simp add: physicsStep_def goalPhase_def Let_def update_keeps resetPlayer_def
      setLinvel_def setTranslation_def worldStep_def)

text \<open>The spawn point is out of the goal's range.\<close>

lemma vz_le_distanceTo: "\<bar>vz a - vz b\<bar> \<le> distanceTo a b"
proof -
  have "(vz a - vz b) * (vz a - vz b) \<le> lengthSq (vsub a b)"
    by (simp add: lengthSq_def vsub_def)
  then have "sqrt ((vz a - vz b) * (vz a - vz b)) \<le> sqrt (lengthSq (vsub a b))"
    by (rule real_sqrt_le_mono)
  then show ?thesis by (simp add: distanceTo_def)
qed

lemma vz_goalPos: "vz goalPos = - (36 * 101.4 / sqrt 11497)"
  by (simp add: goalPos_def vnormalize_def normDivisor_def vlength_def lengthSq_def
      divideScalar_def multiplyScalar_def PLANET_RADIUS_def)


text \<open>A tick of the still backend with the player on the spawn point.\<close>

lemma stillWorld_simps:
  "castRay (stillWorld h) p d l = h" "step (stillWorld h) b = b" "invMass (stillWorld h) = 1 / 3"
  by (simp_all add: stillWorld_def)


lemma preStep_more_fields:
  "jumpBufferTimer (preStep w dt s)
     = (if jumpFires (groundPhase w dt s) then 0 else jumpBufferTimer (groundPhase w dt s))"
  "comboTimer (preStep w dt s)
     = (if jumpFires (groundPhase w dt s) then PosInf else comboTimer (groundPhase w dt s))"
  "grounded (preStep w dt s) = (grounded (groundPhase w dt s) \<and> \<not> jumpFires (groundPhase w dt s))"
  by (simp_all add: preStep_def movePhase_fields)

lemma jumpFires_groundPhase:
  "jumpFires (groundPhase w dt s)
     = (\<not> isClear s
        \<and> castRay w (translation (playerRb s)) (multiplyScalar (upOf s) (-1)) GROUND_RAY_LEN
        \<and> 0 < jumpBufferTimer s \<and> 0 < jumpBufferTimer s - dt)"
  by (auto simp add: jumpFires_def groundPhase_grounded groundPhase_jumpBufferTimer)

lemma keydown_fields:
  "jumpBufferTimer (keydown code s)
     = (if code = ''KeyR'' then 0 else if code = ''Space'' then JUMP_BUFFER_TIME
        else jumpBufferTimer s)"
  "isClear (keydown code s) = (isClear s \<and> code \<noteq> ''KeyR'')"
  "code \<noteq> ''KeyR'' \<Longrightarrow> playerRb (keydown code s) = playerRb s"
  "code \<noteq> ''KeyR'' \<Longrightarrow> jumpComboIndex (keydown code s) = jumpComboIndex s"
  "code \<noteq> ''KeyR'' \<Longrightarrow> comboTimer (keydown code s) = comboTimer s"
  "wasGrounded (keydown code s) = wasGrounded s"
  by (simp_all add: keydown_def Let_def resetPlayer_def)

lemma upOf_keydown: "code \<noteq> ''KeyR'' \<Longrightarrow> upOf (keydown code s) = upOf s"
  by (simp add: upOf_def keydown_fields)

lemma initial_fields:
  "translation (playerRb initialGame) = spawnPoint" "\<not> isClear initialGame"
  "jumpComboIndex initialGame = 0" "comboTimer initialGame = PosInf"
  "\<not> wasGrounded initialGame"
  by (simp_all add: initialGame_def)


text \<open>
  The index into \<open>JUMP_IMPULSES\<close> stays inside the table in every reachable state, so the
  lookup of line 230 never leaves it.
\<close>

lemma combo_index_event: "jumpComboIndex s < 3 \<Longrightarrow> jumpComboIndex (apply_event e s) < 3"
proof (cases e)
  case (Tick w)
  assume "jumpComboIndex s < 3"
  then show ?thesis
    by (simp add: Tick physicsStep_fields preStep_jumpComboIndex groundPhase_jumpComboIndex)
next
  case (KeyDown c)
  assume "jumpComboIndex s < 3"
  then show ?thesis by (simp add: KeyDown keydown_def Let_def resetPlayer_def)
next
  case (KeyUp c)
  assume "jumpComboIndex s < 3"
  then show ?thesis by (simp add: KeyUp keyup_def)
next
  case (MouseMove l x y)
  assume "jumpComboIndex s < 3"
  then show ?thesis by (simp add: MouseMove mousemove_def)
qed

lemma combo_index_in_range: "reachable s \<Longrightarrow> jumpComboIndex s < 3"
proof (induction rule: reachable.induct)
  case reachable_init
  show ?case by (simp add: initialGame_def)
next
  case (reachable_event s e)
  then show ?case by (simp add: combo_index_event)
qed







lemma afterFirstJump_eq:
  "afterFirstJump = physicsStep (stillWorld True) fixedDt (keydown ''Space'' initialGame)"
  by (simp add: afterFirstJump_def)





















section \<open>The jump buffer\<close>

lemma physicsStep_jumpBufferTimer_le:
  "0 \<le> dt \<Longrightarrow> jumpBufferTimer (physicsStep w dt s) \<le> max 0 (jumpBufferTimer s - dt)"
  by (simp add: physicsStep_fields preStep_more_fields groundPhase_jumpBufferTimer)

lemma run_ticks_jumpBufferTimer_le:
  "jumpBufferTimer (run (map Tick ws) s)
     \<le> max 0 (jumpBufferTimer s - real (length ws) * fixedDt)"
proof (induction ws arbitrary: s)
  case Nil
  show ?case by simp
next
  case (Cons w ws)
  have d: "0 \<le> fixedDt" by (simp add: fixedDt_def)
  have "jumpBufferTimer (run (map Tick (w # ws)) s)
          \<le> max 0 (jumpBufferTimer (physicsStep w fixedDt s) - real (length ws) * fixedDt)"
    using Cons.IH [of "physicsStep w fixedDt s"] by simp
  also have "\<dots> \<le> max 0 (max 0 (jumpBufferTimer s - fixedDt) - real (length ws) * fixedDt)"
    using physicsStep_jumpBufferTimer_le [OF d, of w s] by (simp add: max_def)
  also have "\<dots> \<le> max 0 (jumpBufferTimer s - real (length (w # ws)) * fixedDt)"
  proof -
    define N where "N = real (length ws) * fixedDt"
    have n: "0 \<le> N" using d by (simp add: N_def)
    have e: "real (length (w # ws)) * fixedDt = N + fixedDt" by (simp add: N_def algebra_simps)
    have "max 0 (max 0 (jumpBufferTimer s - fixedDt) - N) \<le> max 0 (jumpBufferTimer s - (N + fixedDt))"
      using n by (simp add: max_def)
    then show ?thesis by (simp only: e N_def)
  qed
  finally show ?case .
qed

lemma quiet_tick_jumpBufferTimer:
  assumes "\<not> castRay w (translation (playerRb s)) (multiplyScalar (upOf s) (-1)) GROUND_RAY_LEN"
    and "\<not> escaped (translation (step w (playerRb (preStep w dt s))))"
  shows "jumpBufferTimer (physicsStep w dt s)
           = (if 0 < jumpBufferTimer s then jumpBufferTimer s - dt else jumpBufferTimer s)"
  using assms
  by (simp add: physicsStep_fields preStep_more_fields jumpFires_groundPhase
      groundPhase_jumpBufferTimer)

lemma quiet_run_jumpBufferTimer:
  "quietTicks ws s \<Longrightarrow> 0 < jumpBufferTimer s - real (length ws) * fixedDt \<Longrightarrow>
   jumpBufferTimer (run (map Tick ws) s) = jumpBufferTimer s - real (length ws) * fixedDt"
proof (induction ws arbitrary: s)
  case Nil
  show ?case by simp
next
  case (Cons w ws)
  have d: "0 \<le> fixedDt" by (simp add: fixedDt_def)
  define N where "N = real (length ws) * fixedDt"
  have n: "0 \<le> N" using d by (simp add: N_def)
  have e: "real (length (w # ws)) * fixedDt = N + fixedDt" by (simp add: N_def algebra_simps)
  have p: "0 < jumpBufferTimer s - (N + fixedDt)" using Cons.prems(2) by (simp only: e)
  have pos: "0 < jumpBufferTimer s - fixedDt" "0 < jumpBufferTimer s"
    using p n d by linarith+
  have t: "jumpBufferTimer (physicsStep w fixedDt s) = jumpBufferTimer s - fixedDt"
    using Cons.prems(1) pos by (simp add: quiet_tick_jumpBufferTimer)
  have q: "quietTicks ws (physicsStep w fixedDt s)" using Cons.prems(1) by simp
  have "0 < jumpBufferTimer (physicsStep w fixedDt s) - real (length ws) * fixedDt"
    using p by (simp add: t N_def)
  from Cons.IH [OF q this]
  have "jumpBufferTimer (run (map Tick (w # ws)) s) = jumpBufferTimer s - fixedDt - N"
    by (simp add: t N_def)
  also have "\<dots> = jumpBufferTimer s - (N + fixedDt)" by simp
  finally show ?case by (simp only: e)
qed

text \<open>
  C3, as the claim states it, fails: once the level is cleared the jump is behind the
  gate of line 200. The player lands with the buffer positive, no jump executes and the
  buffer is not consumed.
\<close>

theorem buffered_jump_counterexample:
  "\<not> wasGrounded clearedPress
   \<and> grounded (groundPhase (stillWorld True) fixedDt clearedPress)
   \<and> 0 < jumpBufferTimer (groundPhase (stillWorld True) fixedDt clearedPress)
   \<and> \<not> jumpFires (groundPhase (stillWorld True) fixedDt clearedPress)
   \<and> linvel (playerRb (preStep (stillWorld True) fixedDt clearedPress))
       = committedVelocity fixedDt (groundPhase (stillWorld True) fixedDt clearedPress)
   \<and> grounded (physicsStep (stillWorld True) fixedDt clearedPress)
   \<and> jumpBufferTimer (physicsStep (stillWorld True) fixedDt clearedPress) = 2 / 15"
  by (simp add: clearedPress_def physicsStep_fields preStep_more_fields preStep_linvel
      preStep_translation jumpFires_groundPhase groundPhase_jumpBufferTimer groundPhase_grounded
      keydown_fields stillWorld_simps initialGame_def not_escaped_spawnPoint
      JUMP_BUFFER_TIME_def fixedDt_def)

text \<open>
  C3, amended. A press of the jump key sets the buffer timer to \<open>JUMP_BUFFER_TIME\<close>,
  whatever it held; each tick takes \<open>dt\<close> off a positive timer; in a tick where the level
  is not cleared, the ground ray hits and the timer is still positive after that tick's
  countdown, a jump executes: the impulse is applied, the buffer is set to 0 and the
  player is no longer grounded. A press followed by \<open>n\<close> ticks does not fire on the tick
  after them when \<open>(n + 1) * dt\<close> is more than \<open>JUMP_BUFFER_TIME\<close>; it does fire there when
  the \<open>n\<close> ticks were in the air and in bounds, \<open>(n + 1) * dt\<close> is below \<open>JUMP_BUFFER_TIME\<close>,
  the level is not cleared and the ray hits.
\<close>

theorem jump_buffer:
  "jumpBufferTimer (keydown ''Space'' s) = JUMP_BUFFER_TIME
   \<and> jumpBufferTimer (groundPhase w dt s)
       = (if 0 < jumpBufferTimer s then jumpBufferTimer s - dt else jumpBufferTimer s)
   \<and> (\<not> isClear s
        \<and> castRay w (translation (playerRb s)) (multiplyScalar (upOf s) (-1)) GROUND_RAY_LEN
        \<and> 0 < jumpBufferTimer (groundPhase w dt s) \<longrightarrow>
          jumpFires (groundPhase w dt s)
        \<and> jumpBufferTimer (preStep w dt s) = 0
        \<and> \<not> grounded (preStep w dt s)
        \<and> linvel (playerRb (preStep w dt s))
            = vadd (committedVelocity dt (groundPhase w dt s))
                (multiplyScalar (multiplyScalar (upOf s)
                   (JUMP_IMPULSES ! jumpComboIndex (groundPhase w dt s))) (invMass w)))
   \<and> (JUMP_BUFFER_TIME < real (length ws + 1) * fixedDt \<longrightarrow>
        \<not> jumpFires (groundPhase w' fixedDt (run (map Tick ws) (keydown ''Space'' s'))))
   \<and> (quietTicks ws (keydown ''Space'' s')
        \<and> real (length ws + 1) * fixedDt < JUMP_BUFFER_TIME
        \<and> \<not> isClear (run (map Tick ws) (keydown ''Space'' s'))
        \<and> castRay w' (translation (playerRb (run (map Tick ws) (keydown ''Space'' s'))))
             (multiplyScalar (upOf (run (map Tick ws) (keydown ''Space'' s'))) (-1))
             GROUND_RAY_LEN \<longrightarrow>
          jumpFires (groundPhase w' fixedDt (run (map Tick ws) (keydown ''Space'' s'))))"
proof (intro conjI impI)
  show "jumpBufferTimer (keydown ''Space'' s) = JUMP_BUFFER_TIME"
    by (simp add: keydown_fields)
  show "jumpBufferTimer (groundPhase w dt s)
       = (if 0 < jumpBufferTimer s then jumpBufferTimer s - dt else jumpBufferTimer s)"
    by (simp add: groundPhase_jumpBufferTimer)
next
  assume a: "\<not> isClear s
        \<and> castRay w (translation (playerRb s)) (multiplyScalar (upOf s) (-1)) GROUND_RAY_LEN
        \<and> 0 < jumpBufferTimer (groundPhase w dt s)"
  then show f: "jumpFires (groundPhase w dt s)"
    by (simp add: jumpFires_def groundPhase_grounded)
  from f show "jumpBufferTimer (preStep w dt s) = 0" "\<not> grounded (preStep w dt s)"
    by (simp_all add: preStep_more_fields)
  from f show "linvel (playerRb (preStep w dt s))
            = vadd (committedVelocity dt (groundPhase w dt s))
                (multiplyScalar (multiplyScalar (upOf s)
                   (JUMP_IMPULSES ! jumpComboIndex (groundPhase w dt s))) (invMass w))"
    by (simp add: preStep_linvel)
next
  let ?sn = "run (map Tick ws) (keydown ''Space'' s')"
  assume late: "JUMP_BUFFER_TIME < real (length ws + 1) * fixedDt"
  have d: "0 \<le> fixedDt" by (simp add: fixedDt_def)
  have "jumpBufferTimer ?sn \<le> max 0 (JUMP_BUFFER_TIME - real (length ws) * fixedDt)"
    using run_ticks_jumpBufferTimer_le [of ws "keydown ''Space'' s'"]
    by (simp add: keydown_fields)
  then have "jumpBufferTimer ?sn - fixedDt \<le> 0"
    using late d by (simp add: max_def algebra_simps split: if_splits)
  then show "\<not> jumpFires (groundPhase w' fixedDt ?sn)"
    by (simp add: jumpFires_groundPhase)
next
  let ?sn = "run (map Tick ws) (keydown ''Space'' s')"
  assume a: "quietTicks ws (keydown ''Space'' s')
        \<and> real (length ws + 1) * fixedDt < JUMP_BUFFER_TIME
        \<and> \<not> isClear ?sn
        \<and> castRay w' (translation (playerRb ?sn)) (multiplyScalar (upOf ?sn) (-1)) GROUND_RAY_LEN"
  have d: "0 < fixedDt" by (simp add: fixedDt_def)
  have p: "0 < JUMP_BUFFER_TIME - real (length ws) * fixedDt - fixedDt"
    using a by (simp add: algebra_simps)
  then have p': "0 < jumpBufferTimer (keydown ''Space'' s') - real (length ws) * fixedDt"
    using d by (simp add: keydown_fields)
  have "jumpBufferTimer ?sn = JUMP_BUFFER_TIME - real (length ws) * fixedDt"
    using quiet_run_jumpBufferTimer [OF _ p'] a by (simp add: keydown_fields)
  then show "jumpFires (groundPhase w' fixedDt ?sn)"
    using a p d by (simp add: jumpFires_groundPhase)
qed

lemma axis_far_from_goal: "\<not> distanceTo (Vec3 0 y 0) goalPos < CLEAR_RADIUS"
proof -
  have "sqrt 11497 \<le> sqrt (108 * 108)" by (rule real_sqrt_le_mono) simp
  then have s: "sqrt 11497 \<le> 108" by simp
  have p: "0 < sqrt 11497" by simp
  have "36 * 101.4 / 108 \<le> 36 * 101.4 / sqrt 11497"
    using s p by (intro divide_left_mono) simp_all
  then have "33 \<le> \<bar>vz (Vec3 0 y 0) - vz goalPos\<bar>"
    by (simp add: vz_goalPos)
  with vz_le_distanceTo [of "Vec3 0 y 0" goalPos] show ?thesis
    by (simp add: CLEAR_RADIUS_def)
qed

lemma sink_tick:
  assumes "translation (playerRb s) = Vec3 0 y 0" "\<bar>y - v\<bar> \<le> 160"
  shows "translation (playerRb (physicsStep (sinkWorld v) dt s)) = Vec3 0 (y - v) 0"
    and "isClear (physicsStep (sinkWorld v) dt s) = isClear s"
    and "\<not> escaped (translation (step (sinkWorld v) (playerRb (preStep (sinkWorld v) dt s))))"
proof -
  have t: "translation (step (sinkWorld v) (playerRb (preStep (sinkWorld v) dt s)))
             = Vec3 0 (y - v) 0"
    by (simp add: sinkWorld_def preStep_translation assms(1))
  show e: "\<not> escaped (translation (step (sinkWorld v) (playerRb (preStep (sinkWorld v) dt s))))"
    unfolding t using assms(2)
    by (simp add: escaped_def vlength_axis_y PLANET_RADIUS_def ESCAPE_MARGIN_def)
  show "translation (playerRb (physicsStep (sinkWorld v) dt s)) = Vec3 0 (y - v) 0"
    using e by (simp add: physicsStep_translation t)
  show "isClear (physicsStep (sinkWorld v) dt s) = isClear s"
    using e by (simp add: physicsStep_isClear t axis_far_from_goal)
qed

lemma sink_ray:
  "translation (playerRb s) = Vec3 0 y 0 \<Longrightarrow>
   castRay (sinkWorld v) (translation (playerRb s)) (multiplyScalar (upOf s) (-1)) GROUND_RAY_LEN
     = (\<bar>y\<bar> \<le> PLANET_RADIUS + GROUND_RAY_LEN)"
  by (simp add: sinkWorld_def vlength_axis_y)

lemma sink_run:
  "translation (playerRb s) = Vec3 0 y 0 \<Longrightarrow> \<not> isClear s \<Longrightarrow> 0 \<le> v \<and> v \<le> 1 \<Longrightarrow> y \<le> 160 \<Longrightarrow>
   PLANET_RADIUS + GROUND_RAY_LEN < y - real n * v + v \<Longrightarrow>
   quietTicks (replicate n (sinkWorld v)) s
   \<and> translation (playerRb (run (map Tick (replicate n (sinkWorld v))) s))
       = Vec3 0 (y - real n * v) 0
   \<and> \<not> isClear (run (map Tick (replicate n (sinkWorld v))) s)"
proof (induction n arbitrary: s y)
  case 0
  then show ?case by simp
next
  case (Suc n)
  have v: "0 \<le> v" "v \<le> 1" using Suc.prems(3) by simp_all
  have nv: "0 \<le> real n * v" using v by simp
  have e: "real (Suc n) * v = real n * v + v" by (simp add: algebra_simps)
  have above: "PLANET_RADIUS + GROUND_RAY_LEN < y" using Suc.prems(5) nv unfolding e by linarith
  have r: "100 \<le> PLANET_RADIUS + GROUND_RAY_LEN"
    by (simp add: PLANET_RADIUS_def GROUND_RAY_LEN_def)
  have ypos: "0 < y - v" "0 < y"
    using above v r by simp_all
  have b: "\<bar>y - v\<bar> \<le> 160" using ypos v Suc.prems(4) by linarith
  note k = sink_tick [OF Suc.prems(1) b, of fixedDt]
  have miss: "\<not> castRay (sinkWorld v) (translation (playerRb s))
                 (multiplyScalar (upOf s) (-1)) GROUND_RAY_LEN"
    using above ypos by (simp add: sink_ray [OF Suc.prems(1)])
  have c: "\<not> isClear (physicsStep (sinkWorld v) fixedDt s)" using k(2) Suc.prems(2) by simp
  have h: "PLANET_RADIUS + GROUND_RAY_LEN < (y - v) - real n * v + v"
    using Suc.prems(5) unfolding e by linarith
  have y': "y - v \<le> 160" using v Suc.prems(4) by linarith
  from Suc.IH [OF k(1) c Suc.prems(3) y' h]
  show ?case using miss k(3) by (simp add: algebra_simps)
qed

theorem jump_buffer_witness:
  "\<not> isClear (keydown ''Space'' initialGame)
   \<and> castRay (stillWorld True) (translation (playerRb (keydown ''Space'' initialGame)))
        (multiplyScalar (upOf (keydown ''Space'' initialGame)) (-1)) GROUND_RAY_LEN
   \<and> 0 < jumpBufferTimer (groundPhase (stillWorld True) fixedDt (keydown ''Space'' initialGame))
   \<and> jumpFires (groundPhase (stillWorld True) fixedDt (keydown ''Space'' initialGame))
   \<and> jumpBufferTimer (preStep (stillWorld True) fixedDt (keydown ''Space'' initialGame)) = 0
   \<and> quietTicks (replicate 10 (sinkWorld 0.13)) (keydown ''Space'' initialGame)
   \<and> castRay (sinkWorld 0.13)
        (translation (playerRb (run (map Tick (replicate 10 (sinkWorld 0.13)))
           (keydown ''Space'' initialGame))))
        (multiplyScalar (upOf (run (map Tick (replicate 10 (sinkWorld 0.13)))
           (keydown ''Space'' initialGame))) (-1)) GROUND_RAY_LEN
   \<and> JUMP_BUFFER_TIME < real (length (replicate 10 (sinkWorld 0.13)) + 1) * fixedDt
   \<and> \<not> jumpFires (groundPhase (sinkWorld 0.13) fixedDt
          (run (map Tick (replicate 10 (sinkWorld 0.13))) (keydown ''Space'' initialGame)))
   \<and> quietTicks (replicate 7 (sinkWorld 0.2)) (keydown ''Space'' initialGame)
   \<and> real (length (replicate 7 (sinkWorld 0.2)) + 1) * fixedDt < JUMP_BUFFER_TIME
   \<and> \<not> isClear (run (map Tick (replicate 7 (sinkWorld 0.2))) (keydown ''Space'' initialGame))
   \<and> castRay (sinkWorld 0.2)
        (translation (playerRb (run (map Tick (replicate 7 (sinkWorld 0.2)))
           (keydown ''Space'' initialGame))))
        (multiplyScalar (upOf (run (map Tick (replicate 7 (sinkWorld 0.2)))
           (keydown ''Space'' initialGame))) (-1)) GROUND_RAY_LEN
   \<and> jumpFires (groundPhase (sinkWorld 0.2) fixedDt
        (run (map Tick (replicate 7 (sinkWorld 0.2))) (keydown ''Space'' initialGame)))"
proof -
  let ?s = "keydown ''Space'' initialGame"
  let ?late = "run (map Tick (replicate 10 (sinkWorld 0.13))) ?s"
  let ?soon = "run (map Tick (replicate 7 (sinkWorld 0.2))) ?s"
  have s: "translation (playerRb ?s) = Vec3 0 103.2 0" "\<not> isClear ?s"
    by (simp_all add: keydown_fields initial_fields spawnPoint_def PLANET_RADIUS_def)
  have h1: "\<not> isClear ?s
     \<and> castRay (stillWorld True) (translation (playerRb ?s)) (multiplyScalar (upOf ?s) (-1))
         GROUND_RAY_LEN
     \<and> 0 < jumpBufferTimer (groundPhase (stillWorld True) fixedDt ?s)"
    by (simp add: stillWorld_simps groundPhase_jumpBufferTimer keydown_fields initial_fields
        JUMP_BUFFER_TIME_def fixedDt_def)
  have l: "quietTicks (replicate 10 (sinkWorld 0.13)) ?s"
    "translation (playerRb ?late) = Vec3 0 101.9 0"
    using sink_run [OF s, where v = "0.13" and n = 10] by (simp_all add: PLANET_RADIUS_def GROUND_RAY_LEN_def)
  have lr: "castRay (sinkWorld 0.13) (translation (playerRb ?late))
              (multiplyScalar (upOf ?late) (-1)) GROUND_RAY_LEN"
    unfolding sink_ray [OF l(2)] by (simp add: PLANET_RADIUS_def GROUND_RAY_LEN_def)
  have h2: "JUMP_BUFFER_TIME < real (length (replicate 10 (sinkWorld 0.13)) + 1) * fixedDt"
    by (simp add: JUMP_BUFFER_TIME_def fixedDt_def)
  have q: "quietTicks (replicate 7 (sinkWorld 0.2)) ?s"
    "translation (playerRb ?soon) = Vec3 0 101.8 0"
    "\<not> isClear ?soon"
    using sink_run [OF s, where v = "0.2" and n = 7] by (simp_all add: PLANET_RADIUS_def GROUND_RAY_LEN_def)
  have qr: "castRay (sinkWorld 0.2) (translation (playerRb ?soon))
              (multiplyScalar (upOf ?soon) (-1)) GROUND_RAY_LEN"
    unfolding sink_ray [OF q(2)] by (simp add: PLANET_RADIUS_def GROUND_RAY_LEN_def)
  have h3: "real (length (replicate 7 (sinkWorld 0.2)) + 1) * fixedDt < JUMP_BUFFER_TIME"
    by (simp add: JUMP_BUFFER_TIME_def fixedDt_def)
  note t = jump_buffer [of ?s "stillWorld True" fixedDt]
  from t h1 have c1: "jumpFires (groundPhase (stillWorld True) fixedDt ?s)"
    "jumpBufferTimer (preStep (stillWorld True) fixedDt ?s) = 0"
    by blast+
  from jump_buffer [of ?s "stillWorld True" fixedDt
      "replicate 10 (sinkWorld 0.13)" "sinkWorld 0.13" initialGame] h2
  have c2: "\<not> jumpFires (groundPhase (sinkWorld 0.13) fixedDt ?late)"
    by blast
  from jump_buffer [of ?s "stillWorld True" fixedDt
      "replicate 7 (sinkWorld 0.2)" "sinkWorld 0.2" initialGame] q(1,3) qr h3
  have c3: "jumpFires (groundPhase (sinkWorld 0.2) fixedDt ?soon)"
    by blast
  from h1 h2 h3 l(1) lr q(1,3) qr c1 c2 c3 show ?thesis by blast
qed

section \<open>Tangential speed\<close>

lemma vlength_wishDir_le: "vlength (wishDir yw u mx mz) \<le> 1"
proof -
  let ?wd = "vadd (multiplyScalar (camForward yw u) mz) (multiplyScalar (camRight yw u) mx)"
  show ?thesis
  proof (cases "lengthSq ?wd > 0")
    case True
    then show ?thesis by (simp add: wishDir_def Let_def vlength_normalize_le)
  next
    case False
    then have "lengthSq ?wd = 0" using lengthSq_nonneg [of ?wd] by linarith
    then have "?wd = Vec3 0 0 0" by (simp add: lengthSq_zero_iff)
    then show ?thesis using False by (simp add: wishDir_def Let_def vlength_zero)
  qed
qed

lemma speedCap_nonneg: "0 \<le> speedCap d"
  by (simp add: speedCap_def BASE_SPEED_def DASH_MULTIPLIER_def)

lemma maxDelta_nonneg: "0 \<le> dt \<Longrightarrow> 0 \<le> maxDelta d g dt"
  by (simp add: maxDelta_def BASE_ACCEL_GROUND_def BASE_ACCEL_AIR_def)

lemma dragOf_nonneg: "0 \<le> dragOf d g"
  by (simp add: dragOf_def BASE_DRAG_GROUND_def BASE_DRAG_AIR_def)

lemma vlength_target_le: "vlength (multiplyScalar (wishDir yw u mx mz) (speedCap d)) \<le> speedCap d"
proof -
  have "vlength (multiplyScalar (wishDir yw u mx mz) (speedCap d))
          = speedCap d * vlength (wishDir yw u mx mz)"
    using speedCap_nonneg [of d] by (simp add: vlength_multiplyScalar)
  also have "\<dots> \<le> speedCap d * 1"
    using vlength_wishDir_le speedCap_nonneg by (intro mult_left_mono)
  finally show ?thesis by simp
qed

lemma vlength_toward:
  assumes "0 \<le> k" "k \<le> 1"
  shows "vlength (vadd t (multiplyScalar (vsub g t) k)) \<le> max (vlength t) (vlength g)"
proof -
  have e: "vadd t (multiplyScalar (vsub g t) k)
             = vadd (multiplyScalar t (1 - k)) (multiplyScalar g k)"
    by (cases t; cases g) (simp add: vec_defs algebra_simps)
  have "vlength (vadd t (multiplyScalar (vsub g t) k))
          \<le> vlength (multiplyScalar t (1 - k)) + vlength (multiplyScalar g k)"
    unfolding e by (rule vlength_triangle)
  also have "\<dots> = (1 - k) * vlength t + k * vlength g"
    using assms by (simp add: vlength_multiplyScalar)
  also have "\<dots> \<le> (1 - k) * max (vlength t) (vlength g) + k * max (vlength t) (vlength g)"
    using assms by (intro add_mono mult_left_mono) simp_all
  also have "\<dots> = max (vlength t) (vlength g)" by (simp add: algebra_simps)
  finally show ?thesis .
qed

lemma setLength_scale:
  assumes "vlength a \<noteq> 0"
  shows "setLength a l = multiplyScalar a (l / vlength a)"
  using assms
  by (cases a) (simp add: setLength_def vnormalize_def normDivisor_def divideScalar_def
      multiplyScalar_def)

lemma clamped_delta:
  assumes "0 \<le> m"
  shows "\<exists>k. 0 \<le> k \<and> k \<le> 1
           \<and> (if vlength d > m then setLength d m else d) = multiplyScalar d k"
proof (cases "vlength d > m")
  case True
  then have nz: "vlength d \<noteq> 0" and pos: "0 < vlength d" using assms by simp_all
  have "0 \<le> m / vlength d \<and> m / vlength d \<le> 1"
    using True assms pos by simp
  then show ?thesis using True by (intro exI [of _ "m / vlength d"]) (simp add: setLength_scale nz)
next
  case False
  have "multiplyScalar d 1 = d" by (cases d) (simp add: multiplyScalar_def)
  then show ?thesis using False by (intro exI [of _ 1]) simp
qed

text \<open>The tangential part of what \<open>steer\<close> returns, before the normal part is added back.\<close>

lemma steer_split:
  "\<exists>k. 0 \<le> k \<and> k \<le> 1
     \<and> steer keys yw u g dt v
         = vadd (multiplyScalar
                   (vadd (projectOnPlane v u)
                      (multiplyScalar
                         (vsub (multiplyScalar
                                  (wishDir yw u (moveAxis keys ''KeyD'' ''KeyA'')
                                     (moveAxis keys ''KeyW'' ''KeyS''))
                                  (speedCap (dashingOf keys)))
                               (projectOnPlane v u)) k))
                   (max 0 (1 - dragOf (dashingOf keys) g * dt)))
                (multiplyScalar u (dot v u))"
  if "0 \<le> dt"
proof -
  let ?d = "vsub (multiplyScalar (wishDir yw u (moveAxis keys ''KeyD'' ''KeyA'')
                (moveAxis keys ''KeyW'' ''KeyS'')) (speedCap (dashingOf keys)))
              (projectOnPlane v u)"
  from clamped_delta [where m = "maxDelta (dashingOf keys) g dt" and d = ?d,
      OF maxDelta_nonneg [OF that]]
  obtain k where k: "0 \<le> k" "k \<le> 1"
    "(if vlength ?d > maxDelta (dashingOf keys) g dt
      then setLength ?d (maxDelta (dashingOf keys) g dt) else ?d) = multiplyScalar ?d k"
    by blast
  have "steer keys yw u g dt v
         = vadd (multiplyScalar (vadd (projectOnPlane v u) (multiplyScalar ?d k))
                   (max 0 (1 - dragOf (dashingOf keys) g * dt)))
                (multiplyScalar u (dot v u))"
    unfolding steer_def Let_def k(3) normal_part ..
  with k(1,2) show ?thesis by blast
qed

lemma projectOnPlane_tangent_plus_normal:
  assumes "dot a u = 0" "dot u u = 1"
  shows "projectOnPlane (vadd a (multiplyScalar u c)) u = a"
proof -
  have "dot (vadd a (multiplyScalar u c)) u = c"
    using assms by (simp add: dot_vadd_left dot_multiplyScalar_left)
  then have "projectOnPlane (vadd a (multiplyScalar u c)) u
               = vsub (vadd a (multiplyScalar u c)) (multiplyScalar u c)"
    by (simp add: projectOnPlane_def)
  also have "\<dots> = a" by (cases a; cases u) (simp add: vec_defs)
  finally show ?thesis .
qed

lemma tangential_steer_le:
  assumes "dot u u = 1" "0 \<le> dt"
  shows "vlength (projectOnPlane (steer keys yw u g dt v) u)
           \<le> max (vlength (projectOnPlane v u)) (speedCap (dashingOf keys))"
proof -
  let ?t = "projectOnPlane v u"
  let ?g = "multiplyScalar (wishDir yw u (moveAxis keys ''KeyD'' ''KeyA'')
              (moveAxis keys ''KeyW'' ''KeyS'')) (speedCap (dashingOf keys))"
  let ?c = "max 0 (1 - dragOf (dashingOf keys) g * dt)"
  from steer_split [OF assms(2), of keys yw u g v]
  obtain k where k: "0 \<le> k" "k \<le> 1"
    and s: "steer keys yw u g dt v
              = vadd (multiplyScalar (vadd ?t (multiplyScalar (vsub ?g ?t) k)) ?c)
                  (multiplyScalar u (dot v u))"
    by blast
  let ?n = "multiplyScalar (vadd ?t (multiplyScalar (vsub ?g ?t) k)) ?c"
  have tu: "dot ?t u = 0" using assms(1) by (rule dot_projectOnPlane)
  have gu: "dot ?g u = 0" using assms(1) by (simp add: dot_multiplyScalar_left dot_wishDir)
  have nu: "dot ?n u = 0"
    using tu by (simp add: dot_multiplyScalar_left dot_vadd_left dot_vsub_left
        dot_wishDir [OF assms(1)])
  have p: "projectOnPlane (steer keys yw u g dt v) u = ?n"
    unfolding s using nu assms(1) by (rule projectOnPlane_tangent_plus_normal)
  have c: "0 \<le> ?c" "?c \<le> 1"
    using dragOf_nonneg [of "dashingOf keys" g] assms(2) by (simp_all add: mult_nonneg_nonneg)
  have "vlength ?n = ?c * vlength (vadd ?t (multiplyScalar (vsub ?g ?t) k))"
    using c(1) by (simp add: vlength_multiplyScalar)
  also have "\<dots> \<le> 1 * vlength (vadd ?t (multiplyScalar (vsub ?g ?t) k))"
    using c(2) vlength_nonneg by (intro mult_right_mono)
  also have "\<dots> \<le> max (vlength ?t) (vlength ?g)"
    using vlength_toward [OF k] by simp
  also have "\<dots> \<le> max (vlength ?t) (speedCap (dashingOf keys))"
    using vlength_target_le [of yw u _ _ "dashingOf keys"] by (intro max.mono) simp_all
  finally show ?thesis by (simp add: p)
qed

lemma projectOnPlane_along_normal:
  assumes "dot u u = 1"
  shows "projectOnPlane (vadd a (multiplyScalar u c)) u = projectOnPlane a u"
proof -
  have "dot (vadd a (multiplyScalar u c)) u = dot a u + c"
    using assms by (simp add: dot_vadd_left dot_multiplyScalar_left)
  then show ?thesis
    by (cases a; cases u) (simp add: projectOnPlane_def vadd_def vsub_def multiplyScalar_def
        algebra_simps)
qed

lemma gravityVelocity_as_sum:
  "gravityVelocity dt s = vadd (linvel (playerRb s)) (multiplyScalar (upOf s) (- (GRAVITY * dt)))"
  by (simp add: gravityVelocity_def vec_defs)

lemma tangential_gravityVelocity:
  "dot (upOf s) (upOf s) = 1 \<Longrightarrow>
   projectOnPlane (gravityVelocity dt s) (upOf s) = projectOnPlane (linvel (playerRb s)) (upOf s)"
  by (simp add: gravityVelocity_as_sum projectOnPlane_along_normal)

lemma tangential_committed_le:
  assumes "dot (upOf s) (upOf s) = 1" "0 \<le> dt"
  shows "vlength (projectOnPlane (committedVelocity dt s) (upOf s))
           \<le> max (vlength (projectOnPlane (linvel (playerRb s)) (upOf s)))
                 (speedCap (dashingOf (input s)))"
proof (cases "isClear s")
  case True
  then show ?thesis
    by (simp add: committedVelocity_def tangential_gravityVelocity [OF assms(1)])
next
  case False
  then show ?thesis
    using tangential_steer_le [OF assms, of "input s" "yaw s" "grounded s" "gravityVelocity dt s"]
    by (simp add: committedVelocity_def tangential_gravityVelocity [OF assms(1)])
qed

lemma vlength_axis_x: "vlength (Vec3 a 0 0) = \<bar>a\<bar>"
  by (simp add: vlength_def lengthSq_def)

lemma multiplyScalar_twice: "multiplyScalar (multiplyScalar a b) c = multiplyScalar a (b * c)"
  by (simp add: multiplyScalar_def algebra_simps)

lemma setLength_zero: "setLength (Vec3 0 0 0) l = Vec3 0 0 0"
  by (simp add: setLength_def vnormalize_zero multiplyScalar_def)

lemma wishDir_no_keys: "wishDir yw u 0 0 = Vec3 0 0 0"
  by (simp add: wishDir_def Let_def vadd_def multiplyScalar_def lengthSq_def)

lemma upOf_sprinting: "upOf sprinting = Vec3 0 1 0"
  by (simp add: upOf_def sprinting_def vnormalize_spawnPoint)

lemma committed_sprinting:
  "committedVelocity fixedDt (groundPhase (stillWorld True) fixedDt sprinting)
     = Vec3 (17819 / 1200) (- (7 / 15)) 0"
proof -
  let ?g = "groundPhase (stillWorld True) fixedDt sprinting"
  have f: "\<not> isClear sprinting" "input sprinting = {}" "grounded ?g"
    "linvel (playerRb sprinting) = Vec3 18 0 0"
    by (simp_all add: groundPhase_grounded stillWorld_simps)
       (simp_all add: sprinting_def initialGame_def)
  have gv: "gravityVelocity fixedDt ?g = Vec3 18 (- (7 / 15)) 0"
    by (simp add: gravityVelocity_def f upOf_sprinting addScaledVector_def multiplyScalar_def
        GRAVITY_def fixedDt_def)
  have t: "projectOnPlane (Vec3 18 (- (7 / 15)) 0) (Vec3 0 1 0) = Vec3 18 0 0"
    by (simp add: vec_defs)
  have d: "vsub (multiplyScalar (Vec3 0 0 0) (speedCap False)) (Vec3 18 0 0) = Vec3 (- 18) 0 0"
    by (simp add: vec_defs)
  have m: "maxDelta False True fixedDt = 7 / 10"
    by (simp add: maxDelta_def BASE_ACCEL_GROUND_def fixedDt_def)
  have sl: "setLength (Vec3 (- 18) 0 0) (7 / 10) = Vec3 (- (7 / 10)) 0 0"
    by (simp add: setLength_def vnormalize_def normDivisor_def vlength_axis_x divideScalar_def
        multiplyScalar_def)
  have dr: "max 0 (1 - dragOf False True * fixedDt) = 103 / 120"
    by (simp add: dragOf_def BASE_DRAG_GROUND_def fixedDt_def)
  show ?thesis
    by (simp add: committedVelocity_def f gv upOf_sprinting steer_def Let_def moveAxis_def
        dashingOf_def wishDir_no_keys t d m sl dr vlength_axis_x)
       (simp add: vec_defs)
qed

text \<open>
  C6, as the claim states it, fails. A player on the ground with a tangential speed of 18,
  not dashing and holding no key: the tick takes \<open>maxDelta\<close> = 0.7 off the speed and
  applies drag, and commits a tangential speed of about 14.85, above
  \<open>V_MAX + maxDelta\<close> = 11.2.
\<close>

theorem tangential_speed_counterexample:
  "\<not> dashingOf (input sprinting)
   \<and> grounded (groundPhase (stillWorld True) fixedDt sprinting)
   \<and> vlength (projectOnPlane
        (committedVelocity fixedDt (groundPhase (stillWorld True) fixedDt sprinting))
        (upOf sprinting)) = 17819 / 1200
   \<and> speedCap False + maxDelta False True fixedDt = 56 / 5
   \<and> vlength (projectOnPlane
        (committedVelocity fixedDt (groundPhase (stillWorld True) fixedDt sprinting))
        (upOf sprinting))
       > speedCap (dashingOf (input sprinting))
         + maxDelta (dashingOf (input sprinting))
             (grounded (groundPhase (stillWorld True) fixedDt sprinting)) fixedDt"
proof -
  have i: "\<not> dashingOf (input sprinting)"
    by (simp add: dashingOf_def sprinting_def initialGame_def)
  have g: "grounded (groundPhase (stillWorld True) fixedDt sprinting)"
    by (simp add: groundPhase_grounded stillWorld_simps)
  have v: "vlength (projectOnPlane
        (committedVelocity fixedDt (groundPhase (stillWorld True) fixedDt sprinting))
        (upOf sprinting)) = 17819 / 1200"
    by (simp add: committed_sprinting upOf_sprinting projectOnPlane_def dot_def vsub_def
        multiplyScalar_def vlength_axis_x)
  have b: "speedCap False + maxDelta False True fixedDt = 56 / 5"
    by (simp add: speedCap_def maxDelta_def BASE_SPEED_def BASE_ACCEL_GROUND_def fixedDt_def)
  show ?thesis using i g b by (simp add: v)
qed

text \<open>
  C6, amended. In every tick (player away from the planet centre), the tangential speed
  of the velocity committed to the body is at most the larger of the tangential speed read
  at tick start and \<open>V_MAX\<close> times the dash multiplier (when dashing): steering moves the
  tangential velocity towards a target no faster than the cap and drag only shrinks it, so
  a speed at or below the cap stays there and a speed above it does not grow. The jump
  impulse of the tick leaves the tangential velocity as committed.
\<close>

theorem tangential_speed_bound:
  assumes "translation (playerRb s) \<noteq> Vec3 0 0 0" and "0 \<le> dt"
  shows "vlength (projectOnPlane (committedVelocity dt (groundPhase w dt s)) (upOf s))
           \<le> max (vlength (projectOnPlane (linvel (playerRb s)) (upOf s)))
                 (speedCap (dashingOf (input s)))
       \<and> projectOnPlane (linvel (playerRb (preStep w dt s))) (upOf s)
           = projectOnPlane (committedVelocity dt (groundPhase w dt s)) (upOf s)"
proof -
  let ?g = "groundPhase w dt s"
  have u: "dot (upOf s) (upOf s) = 1" using assms(1) by (rule upOf_unit)
  then have ug: "dot (upOf ?g) (upOf ?g) = 1" by simp
  have a: "vlength (projectOnPlane (committedVelocity dt ?g) (upOf s))
           \<le> max (vlength (projectOnPlane (linvel (playerRb s)) (upOf s)))
                 (speedCap (dashingOf (input s)))"
    using tangential_committed_le [OF ug assms(2)] by simp
  have b: "projectOnPlane (linvel (playerRb (preStep w dt s))) (upOf s)
           = projectOnPlane (committedVelocity dt ?g) (upOf s)"
    by (simp add: preStep_linvel multiplyScalar_twice projectOnPlane_along_normal [OF u])
  from a b show ?thesis by simp
qed

theorem tangential_speed_bound_witness:
  "translation (playerRb (keydown ''KeyW'' initialGame)) \<noteq> Vec3 0 0 0
   \<and> (0::real) \<le> fixedDt
   \<and> vlength (projectOnPlane
        (committedVelocity fixedDt
           (groundPhase (stillWorld True) fixedDt (keydown ''KeyW'' initialGame)))
        (upOf (keydown ''KeyW'' initialGame))) \<le> 21 / 2"
proof -
  let ?s = "keydown ''KeyW'' initialGame"
  have p: "playerRb ?s = \<lparr> translation = spawnPoint, linvel = Vec3 0 0 0 \<rparr>"
    by (simp add: keydown_def Let_def initialGame_def)
  have nz: "translation (playerRb ?s) \<noteq> Vec3 0 0 0"
    by (simp add: p spawnPoint_nonzero)
  have d: "0 \<le> fixedDt" by (simp add: fixedDt_def)
  have i: "\<not> dashingOf (input ?s)"
    by (simp add: dashingOf_def keydown_def Let_def initialGame_def)
  have z: "vlength (projectOnPlane (linvel (playerRb ?s)) (upOf ?s)) = 0"
    by (simp add: p projectOnPlane_def dot_def vsub_def multiplyScalar_def vlength_zero)
  show ?thesis
    using tangential_speed_bound [OF nz d, of "stillWorld True"] nz d
    by (simp add: i z speedCap_def BASE_SPEED_def)
qed

end
